theory Spec2Isabelle
  imports Complex_Main "HOL-Library.AList" "HOL-Library.Sublist"
begin

section \<open>Python strings\<close>

text \<open>
  A Python \<open>str\<close> is a sequence of Unicode code points, and \<open>len\<close> counts code points.
  A literal of the program text is written \<open>lit ''...''\<close>.
\<close>

type_synonym codepoint = nat

type_synonym str = "codepoint list"

definition lit :: "string \<Rightarrow> str" where
  "lit s = map of_char s"

text \<open>
  The character tables of the interpreter are not part of the program and are a
  parameter: which code points are white space, upper-case, lower-case and title-case,
  and the lower-casing of a string (which is not always character by character).
\<close>

record Unicode =
  uc_isspace :: "codepoint \<Rightarrow> bool"
  uc_isupper :: "codepoint \<Rightarrow> bool"
  uc_islower :: "codepoint \<Rightarrow> bool"
  uc_istitle :: "codepoint \<Rightarrow> bool"
  uc_lower :: "str \<Rightarrow> str"

text \<open>\<open>s.lower()\<close>, and \<open>s.strip()\<close>: white space is removed from both ends.\<close>

definition py_lower :: "Unicode \<Rightarrow> str \<Rightarrow> str" where
  "py_lower ucd s = uc_lower ucd s"

definition py_strip :: "Unicode \<Rightarrow> str \<Rightarrow> str" where
  "py_strip ucd s = rev (dropWhile (uc_isspace ucd) (rev (dropWhile (uc_isspace ucd) s)))"

text \<open>
  \<open>s.isupper()\<close>, as the interpreter computes it: a string of one character is upper-case
  when the character is; otherwise one pass that fails on a lower-case or title-case
  character and remembers whether an upper-case character was seen.
\<close>

fun isupper_loop :: "Unicode \<Rightarrow> bool \<Rightarrow> str \<Rightarrow> bool" where
  "isupper_loop ucd cased [] = cased"
| "isupper_loop ucd cased (ch # rest) =
     (if uc_islower ucd ch \<or> uc_istitle ucd ch then False
      else if \<not> cased \<and> uc_isupper ucd ch then isupper_loop ucd True rest
      else isupper_loop ucd cased rest)"

definition py_isupper :: "Unicode \<Rightarrow> str \<Rightarrow> bool" where
  "py_isupper ucd s = (case s of [ch] \<Rightarrow> uc_isupper ucd ch | _ \<Rightarrow> isupper_loop ucd False s)"

text \<open>
  \<open>s.istitle()\<close>, as the interpreter computes it: one pass that remembers whether the
  previous character was cased and whether any cased character was seen. An upper-case
  or title-case character must not follow a cased one, a lower-case character must.
\<close>

fun istitle_loop :: "Unicode \<Rightarrow> bool \<Rightarrow> bool \<Rightarrow> str \<Rightarrow> bool" where
  "istitle_loop ucd previous_is_cased cased [] = cased"
| "istitle_loop ucd previous_is_cased cased (ch # rest) =
     (if uc_isupper ucd ch \<or> uc_istitle ucd ch then
        (if previous_is_cased then False else istitle_loop ucd True True rest)
      else if uc_islower ucd ch then
        (if \<not> previous_is_cased then False else istitle_loop ucd True True rest)
      else istitle_loop ucd False cased rest)"

definition py_istitle :: "Unicode \<Rightarrow> str \<Rightarrow> bool" where
  "py_istitle ucd s =
     (case s of
        [ch] \<Rightarrow> uc_istitle ucd ch \<or> uc_isupper ucd ch
      | _ \<Rightarrow> istitle_loop ucd False False s)"

text \<open>\<open>s.split(sep)\<close> for a one-character separator: the empty string gives one empty piece.\<close>

fun py_split :: "codepoint \<Rightarrow> str \<Rightarrow> str list" where
  "py_split sep [] = [[]]"
| "py_split sep (ch # rest) =
     (if ch = sep then [] # py_split sep rest
      else (case py_split sep rest of
              [] \<Rightarrow> [[ch]]
            | piece # pieces \<Rightarrow> (ch # piece) # pieces))"

text \<open>\<open>sep.join(xs)\<close> and \<open>s.endswith(suffix)\<close>.\<close>

fun py_join :: "str \<Rightarrow> str list \<Rightarrow> str" where
  "py_join sep [] = []"
| "py_join sep [x] = x"
| "py_join sep (x # y # ys) = x @ sep @ py_join sep (y # ys)"

definition py_endswith :: "str \<Rightarrow> str \<Rightarrow> bool" where
  "py_endswith s ending = suffix ending s"

definition newline :: codepoint where
  "newline = 10"

section \<open>Heading extraction\<close>

text \<open>
  A Python set is kept as the list of its elements, each once. The language leaves the
  iteration order of a set open; the model lists the elements in the order they were
  added, and nothing below depends on the order.
\<close>

definition set_add :: "'a \<Rightarrow> 'a list \<Rightarrow> 'a list" where
  "set_add x xs = (if x \<in> set xs then xs else xs @ [x])"

text \<open>The loop of \<open>PDFAnalyzer.extract_headings\<close> over the lines, threading the set.\<close>

fun collect_headings :: "Unicode \<Rightarrow> str list \<Rightarrow> str list \<Rightarrow> str list" where
  "collect_headings ucd [] headings = headings"
| "collect_headings ucd (line # lines) headings =
     (let trimmed_line = py_strip ucd line
      in if 3 < length trimmed_line \<and> length trimmed_line < 100 \<and>
            (py_isupper ucd trimmed_line \<or> py_istitle ucd trimmed_line)
         then collect_headings ucd lines (set_add trimmed_line headings)
         else collect_headings ucd lines headings)"

definition extract_headings :: "Unicode \<Rightarrow> str \<Rightarrow> str list" where
  "extract_headings ucd full_text = collect_headings ucd (py_split newline full_text) []"

text \<open>
  The spec's words for the two tests of a heading. A line is entirely upper-case when
  none of its characters is lower-case or title-case and one at least is upper-case. It
  is in title case when it has a cased character, every upper-case or title-case
  character starts the line or follows an uncased character, and every other lower-case
  character follows a cased one.
\<close>

definition cased_char :: "Unicode \<Rightarrow> codepoint \<Rightarrow> bool" where
  "cased_char ucd ch = (uc_isupper ucd ch \<or> uc_islower ucd ch \<or> uc_istitle ucd ch)"

definition entirely_upper :: "Unicode \<Rightarrow> str \<Rightarrow> bool" where
  "entirely_upper ucd s =
     ((\<forall>ch \<in> set s. \<not> uc_islower ucd ch \<and> \<not> uc_istitle ucd ch) \<and>
      (\<exists>ch \<in> set s. uc_isupper ucd ch))"

definition title_case :: "Unicode \<Rightarrow> str \<Rightarrow> bool" where
  "title_case ucd s =
     ((\<exists>ch \<in> set s. cased_char ucd ch) \<and>
      (\<forall>(after_cased, ch) \<in> set (zip (False # map (cased_char ucd) s) s).
         (uc_isupper ucd ch \<or> uc_istitle ucd ch \<longrightarrow> \<not> after_cased) \<and>
         (uc_islower ucd ch \<and> \<not> uc_isupper ucd ch \<and> \<not> uc_istitle ucd ch \<longrightarrow> after_cased)))"

section \<open>Data model\<close>

text \<open>
  A chunk is a langchain \<open>Document\<close>: its text and the two metadata entries the program
  reads. \<open>None\<close> stands for an entry missing from the metadata dictionary.
\<close>

record Document =
  page_content :: str
  metadata_source :: "str option"
  metadata_page :: "int option"

text \<open>The outcome of a call into an external capability that may raise.\<close>

datatype 'a attempt = Raises | Returns 'a

text \<open>
  The vector store of one document is an external capability: given the fetch width
  \<open>k\<close> and the query it returns chunks, or raises.
\<close>

type_synonym VectorStore = "nat \<Rightarrow> str \<Rightarrow> Document list attempt"

record DocData =
  vector_store :: VectorStore
  headings :: "str list"

text \<open>
  \<open>pdf_data_stores\<close>: a Python dictionary from file name to the stored data, in insertion
  order. Assigning to a key that is present replaces its value in place, assigning to a
  new key appends (\<open>AList.update\<close>).
\<close>

type_synonym Registry = "(str \<times> DocData) list"

record ProcessedChunk =
  pc_section_title :: str
  pc_refined_text :: str
  pc_relevance_score :: real
  pc_document :: str
  pc_page_number :: int

record ExtractedSection =
  es_document :: str
  es_section_title :: str
  es_importance_rank :: int
  es_page_number :: int

record SubsectionAnalysis =
  sa_document :: str
  sa_refined_text :: str
  sa_page_number :: int

record StructuredChatResponse =
  extracted_sections :: "ExtractedSection list"
  subsection_analysis :: "SubsectionAnalysis list"

record PDFAnalysisResult =
  par_filename :: str
  par_status :: str
  extracted_headings_count :: nat

record AnalysisResponse =
  analysis_id :: str
  total_documents_processed :: nat
  results :: "PDFAnalysisResult list"

record ChatRequest =
  query :: str
  persona :: "str option"

text \<open>An upload: the file name the client sent and the bytes of the file.\<close>

record UploadFile =
  filename :: str
  file_bytes :: string

text \<open>
  What a handler raises: an HTTP error with status code and detail, a \<open>KeyError\<close>, or
  the exception of an external call that the handler does not catch, which the framework
  answers with a generic server error.
\<close>

datatype failure =
    HTTPException (status_code: int) (detail: str)
  | KeyError str
  | Uncaught

definition STOP_TITLES :: "str set" where
  "STOP_TITLES = {lit ''introduction'', lit ''conclusion'', lit ''summary'', lit ''abstract'',
     lit ''table of contents'', lit ''preface'', lit ''references'', lit ''bibliography''}"

section \<open>Ingestion\<close>

text \<open>
  The external steps of ingestion: creating the temporary directory, writing an upload
  into it (\<open>open\<close>, \<open>file.read\<close>, \<open>f.write\<close>), removing the directory at the end of the
  \<open>with\<close> block, the page loader, the text splitter and the index build. Each may raise.
\<close>

record Ingestion =
  make_temp_dir :: "unit attempt"
  write_upload :: "UploadFile \<Rightarrow> unit attempt"
  remove_temp_dir :: "unit attempt"
  loader_load :: "string \<Rightarrow> Document list attempt"
  split_documents :: "Document list \<Rightarrow> Document list attempt"
  from_documents :: "Document list \<Rightarrow> VectorStore attempt"

text \<open>
  \<open>PDFAnalyzer.process_pdf\<close>: the whole body is inside \<open>try\<close>, so every exception gives
  \<open>None\<close>, and so does a load that returns no page. The source hands the loader the path
  of the temporary file that holds the uploaded bytes; the model hands it the bytes.
\<close>

definition process_pdf :: "Unicode \<Rightarrow> Ingestion \<Rightarrow> string \<Rightarrow> str \<Rightarrow> DocData option" where
  "process_pdf ucd ext file_content fname =
     (case loader_load ext file_content of
        Raises \<Rightarrow> None
      | Returns documents \<Rightarrow>
          if documents = [] then None
          else
            let full_text = py_join [newline] (map page_content documents);
                hs = extract_headings ucd full_text;
                tagged = map (\<lambda>doc. doc\<lparr>metadata_source := Some fname\<rparr>) documents
            in (case split_documents ext tagged of
                  Raises \<Rightarrow> None
                | Returns chunks \<Rightarrow>
                    (case from_documents ext chunks of
                       Raises \<Rightarrow> None
                     | Returns store \<Rightarrow> Some \<lparr>vector_store = store, headings = hs\<rparr>)))"

definition is_pdf_name :: "Unicode \<Rightarrow> str \<Rightarrow> bool" where
  "is_pdf_name ucd fname = py_endswith (py_lower ucd fname) (lit ''.pdf'')"

definition success_entry :: "UploadFile \<Rightarrow> DocData \<Rightarrow> PDFAnalysisResult" where
  "success_entry file processed_data =
     \<lparr>par_filename = filename file,
      par_status = lit ''Successfully processed and indexed.'',
      extracted_headings_count = length (headings processed_data)\<rparr>"

text \<open>
  The loop of \<open>analyze_pdfs_endpoint\<close> over the uploaded files, threading the registry and
  the list \<open>processed_files\<close>. Writing the upload is outside the \<open>try\<close> of \<open>process_pdf\<close>:
  when it raises, the loop ends there with the exception, and the registry keeps what
  the files before have stored.
\<close>

fun ingest_files ::
  "Unicode \<Rightarrow> Ingestion \<Rightarrow> UploadFile list \<Rightarrow> Registry \<Rightarrow> PDFAnalysisResult list
     \<Rightarrow> Registry \<times> PDFAnalysisResult list attempt" where
  "ingest_files ucd ext [] stores processed_files = (stores, Returns processed_files)"
| "ingest_files ucd ext (file # files) stores processed_files =
     (if \<not> is_pdf_name ucd (filename file) then
        ingest_files ucd ext files stores processed_files
      else
        (case write_upload ext file of
           Raises \<Rightarrow> (stores, Raises)
         | Returns written \<Rightarrow>
             (case process_pdf ucd ext (file_bytes file) (filename file) of
                None \<Rightarrow> ingest_files ucd ext files stores processed_files
              | Some processed_data \<Rightarrow>
                  ingest_files ucd ext files
                    (AList.update (filename file) processed_data stores)
                    (processed_files @ [success_entry file processed_data]))))"

definition no_files :: failure where
  "no_files = HTTPException 400 (lit ''No PDF files provided.'')"

definition none_processed :: failure where
  "none_processed =
     HTTPException 500 (lit ''Could not process any of the provided PDF files.'')"

text \<open>
  \<open>analyze_pdfs_endpoint\<close>: the new registry and the response or the error raised. The
  identifier drawn by \<open>uuid.uuid4()\<close> is a parameter. The loop runs inside
  \<open>with tempfile.TemporaryDirectory()\<close>, and nothing here is inside a \<open>try\<close>: an exception
  of the directory's creation, of a write or of the directory's removal leaves the
  handler. The test of \<open>processed_files\<close> comes after the \<open>with\<close> block.
\<close>

definition analyze_pdfs_endpoint ::
  "Unicode \<Rightarrow> Ingestion \<Rightarrow> str \<Rightarrow> Registry \<Rightarrow> UploadFile list
     \<Rightarrow> Registry \<times> (failure + AnalysisResponse)" where
  "analyze_pdfs_endpoint ucd ext new_id stores files =
     (if files = [] then (stores, Inl no_files)
      else
        (case make_temp_dir ext of
           Raises \<Rightarrow> (stores, Inl Uncaught)
         | Returns made \<Rightarrow>
             (case ingest_files ucd ext files stores [] of
                (stores', Raises) \<Rightarrow> (stores', Inl Uncaught)
              | (stores', Returns processed_files) \<Rightarrow>
                  (case remove_temp_dir ext of
                     Raises \<Rightarrow> (stores', Inl Uncaught)
                   | Returns removed \<Rightarrow>
                       if processed_files = [] then (stores', Inl none_processed)
                       else
                         (stores', Inr \<lparr>analysis_id = new_id,
                             total_documents_processed = length processed_files,
                             results = processed_files\<rparr>)))))"

text \<open>
  What one uploaded file contributes to \<open>processed_files\<close>, taken by itself: nothing
  when its name does not end in \<open>.pdf\<close> or \<open>process_pdf\<close> gives \<open>None\<close>, else its entry.
  The write of a file is attempted when its name ends in \<open>.pdf\<close>.
\<close>

definition file_outcome :: "Unicode \<Rightarrow> Ingestion \<Rightarrow> UploadFile \<Rightarrow> PDFAnalysisResult option" where
  "file_outcome ucd ext file =
     (if is_pdf_name ucd (filename file)
      then map_option (success_entry file)
             (process_pdf ucd ext (file_bytes file) (filename file))
      else None)"

definition write_raises :: "Unicode \<Rightarrow> Ingestion \<Rightarrow> UploadFile \<Rightarrow> bool" where
  "write_raises ucd ext file =
     (is_pdf_name ucd (filename file) \<and> write_upload ext file = Raises)"

text \<open>The temporary storage fails for a batch: one of its steps raises.\<close>

definition storage_raises :: "Unicode \<Rightarrow> Ingestion \<Rightarrow> UploadFile list \<Rightarrow> bool" where
  "storage_raises ucd ext files =
     (make_temp_dir ext = Raises \<or> (\<exists>f \<in> set files. write_raises ucd ext f) \<or>
      remove_temp_dir ext = Raises)"
section \<open>Scoring one chunk\<close>

text \<open>
  The value the JSON output parser hands back: any JSON value. An object is a Python
  dictionary, kept as an association list with distinct keys.
\<close>

datatype json =
    JNull
  | JBool bool
  | JInt int
  | JFloat real
  | JString str
  | JArray "json list"
  | JObject "(str \<times> json) list"

text \<open>The variables \<open>process_chunk\<close> fills into the prompt; \<open>None\<close> as page prints as N/A.\<close>

record PromptVars =
  pv_persona :: "str option"
  pv_query :: str
  pv_context :: str
  pv_page_number :: "int option"
  pv_headings :: str

text \<open>
  The external side of scoring: the chain of prompt, language model and JSON parser,
  which raises or returns a JSON value, and the field validators of the pydantic library
  for the declared types \<open>str\<close>, \<open>float\<close> and \<open>int\<close>, which return the validated value or
  reject the input. Which inputs a validator coerces is the library's business and is
  left open. Scores are real numbers. An infinite float fails a bound of
  \<open>relevance_score\<close>. A float that is not a number is no score of the model: it never
  passes the later test \<open>> 0.4\<close>, so whether the validator rejects it or the filter drops
  it, its chunk is absent from the filtered results, as it is here.
\<close>

record Scoring =
  chain_ainvoke :: "PromptVars \<Rightarrow> json attempt"
  validate_str :: "json \<Rightarrow> str option"
  validate_float :: "json \<Rightarrow> real option"
  validate_int :: "json \<Rightarrow> int option"

text \<open>A required field: a missing key is a validation error.\<close>

definition field :: "(str \<times> json) list \<Rightarrow> str \<Rightarrow> (json \<Rightarrow> 'a option) \<Rightarrow> 'a option" where
  "field d key validate = (case map_of d key of None \<Rightarrow> None | Some v \<Rightarrow> validate v)"

text \<open>
  \<open>ProcessedChunk(**result_dict)\<close>: every field is required and validated by its type, and
  \<open>relevance_score\<close> carries the bounds \<open>ge=0.0, le=1.0\<close>. \<open>None\<close> is a validation error.
\<close>

definition ProcessedChunk_init :: "Scoring \<Rightarrow> (str \<times> json) list \<Rightarrow> ProcessedChunk option" where
  "ProcessedChunk_init ext d =
     (case field d (lit ''section_title'') (validate_str ext) of None \<Rightarrow> None | Some title \<Rightarrow>
      (case field d (lit ''refined_text'') (validate_str ext) of None \<Rightarrow> None | Some refined \<Rightarrow>
       (case field d (lit ''relevance_score'') (validate_float ext) of None \<Rightarrow> None | Some score \<Rightarrow>
        (case field d (lit ''document'') (validate_str ext) of None \<Rightarrow> None | Some doc \<Rightarrow>
         (case field d (lit ''page_number'') (validate_int ext) of None \<Rightarrow> None | Some pg \<Rightarrow>
            if 0 \<le> score \<and> score \<le> 1 then
              Some \<lparr>pc_section_title = title, pc_refined_text = refined,
                    pc_relevance_score = score, pc_document = doc, pc_page_number = pg\<rparr>
            else None)))))"

definition headings_separator :: str where
  "headings_separator = lit [CHR 0x5C, CHR ''n'', CHR ''-'', CHR '' '']"

text \<open>
  \<open>process_chunk\<close>: the call of the chain, the two assignments into the returned
  dictionary and the construction of the \<open>ProcessedChunk\<close> are all inside \<open>try\<close>; any
  exception gives \<open>None\<close>. Assigning to a string key of a value that is not a dictionary
  raises \<open>TypeError\<close>.
\<close>

definition prompt_vars ::
  "Document \<Rightarrow> str \<Rightarrow> str option \<Rightarrow> str list \<Rightarrow> PromptVars" where
  "prompt_vars chunk q pers available_headings =
     \<lparr>pv_persona = pers, pv_query = q, pv_context = page_content chunk,
      pv_page_number = metadata_page chunk,
      pv_headings = py_join headings_separator available_headings\<rparr>"

definition process_chunk ::
  "Scoring \<Rightarrow> Document \<Rightarrow> str \<Rightarrow> str option \<Rightarrow> str list \<Rightarrow> ProcessedChunk option" where
  "process_chunk ext chunk q pers available_headings =
     (case chain_ainvoke ext (prompt_vars chunk q pers available_headings) of
        Raises \<Rightarrow> None
      | Returns (JObject result_dict) \<Rightarrow>
          let with_document =
                AList.update (lit ''document'')
                  (JString (case metadata_source chunk of
                              None \<Rightarrow> lit ''Unknown'' | Some s \<Rightarrow> s))
                  result_dict;
              with_page =
                AList.update (lit ''page_number'')
                  (JInt ((case metadata_page chunk of None \<Rightarrow> 0 | Some p \<Rightarrow> p) + 1))
                  with_document
          in ProcessedChunk_init ext with_page
      | Returns _ \<Rightarrow> None)"

section \<open>The query pipeline\<close>

text \<open>
  \<open>asyncio.gather\<close> over calls that may raise: the results in call order, or the
  exception when a call raises.
\<close>

fun gather :: "'a attempt list \<Rightarrow> 'a list attempt" where
  "gather [] = Returns []"
| "gather (Raises # calls) = Raises"
| "gather (Returns x # calls) =
     (case gather calls of Raises \<Rightarrow> Raises | Returns xs \<Rightarrow> Returns (x # xs))"

text \<open>
  Step 1: one lookup of width 5 per registry entry, in registry order, gathered and
  flattened. The source does not guard the lookups: when one raises, so does the
  handler.
\<close>

definition all_relevant_docs :: "Registry \<Rightarrow> str \<Rightarrow> Document list attempt" where
  "all_relevant_docs stores q =
     (case gather (map (\<lambda>(fname, data). vector_store data 5 q) stores) of
        Raises \<Rightarrow> Raises
      | Returns list_of_docs_lists \<Rightarrow> Returns (concat list_of_docs_lists))"

text \<open>
  \<open>{doc.page_content: doc for doc in all_relevant_docs}.values()\<close>: a dictionary keyed
  by the text, filled from left to right.
\<close>

definition unique_docs :: "Document list \<Rightarrow> Document list" where
  "unique_docs docs =
     map snd (fold (\<lambda>doc d. AList.update (page_content doc) doc d) docs [])"

text \<open>
  Step 2: the loop that builds \<open>processing_tasks\<close>. The subscript
  \<open>pdf_data_stores[source_file]\<close> raises \<open>KeyError\<close> on a key that is missing; the test
  \<open>source_file in pdf_data_stores\<close> is false for a missing \<open>source\<close> entry.
\<close>

definition getitem :: "Registry \<Rightarrow> str \<Rightarrow> failure + DocData" where
  "getitem stores key =
     (case map_of stores key of None \<Rightarrow> Inl (KeyError key) | Some data \<Rightarrow> Inr data)"

fun processing_tasks :: "Registry \<Rightarrow> Document list \<Rightarrow> failure + (Document \<times> str list) list" where
  "processing_tasks stores [] = Inr []"
| "processing_tasks stores (doc # docs) =
     (case metadata_source doc of
        None \<Rightarrow> processing_tasks stores docs
      | Some source_file \<Rightarrow>
          if source_file \<in> fst ` set stores then
            (case getitem stores source_file of
               Inl e \<Rightarrow> Inl e
             | Inr data \<Rightarrow>
                 (case processing_tasks stores docs of
                    Inl e \<Rightarrow> Inl e
                  | Inr tasks \<Rightarrow> Inr ((doc, headings data) # tasks)))
          else processing_tasks stores docs)"

text \<open>
  The test \<open>source_file in pdf_data_stores\<close> of the task loop, as a predicate on the
  chunk: its \<open>source\<close> entry is present and is a key of the registry.
\<close>

definition registered :: "Registry \<Rightarrow> Document \<Rightarrow> bool" where
  "registered stores doc =
     (case metadata_source doc of None \<Rightarrow> False | Some s \<Rightarrow> s \<in> fst ` set stores)"

text \<open>
  \<open>asyncio.gather\<close> over the scoring tasks, which catch every exception: one result per
  task, in task order.
\<close>

definition processed_results ::
  "Scoring \<Rightarrow> ChatRequest \<Rightarrow> (Document \<times> str list) list \<Rightarrow> ProcessedChunk option list" where
  "processed_results ext request tasks =
     map (\<lambda>(doc, hs). process_chunk ext doc (query request) (persona request) hs) tasks"

text \<open>Step 3: drop the failed results, filter, sort.\<close>

fun valid_results :: "ProcessedChunk option list \<Rightarrow> ProcessedChunk list" where
  "valid_results [] = []"
| "valid_results (None # processed) = valid_results processed"
| "valid_results (Some res # processed) = res # valid_results processed"

text \<open>
  The Python literal \<open>0.4\<close> is the double nearest to four tenths, a little above it.
  Scores are the real numbers that the doubles denote, so comparing them is exact.
\<close>

definition threshold :: real where
  "threshold = 3602879701896397 / 9007199254740992"

definition passes_filter :: "Unicode \<Rightarrow> ProcessedChunk \<Rightarrow> bool" where
  "passes_filter ucd res =
     (py_strip ucd (py_lower ucd (pc_section_title res)) \<notin> STOP_TITLES \<and>
      pc_relevance_score res > threshold)"

definition filtered_results :: "Unicode \<Rightarrow> ProcessedChunk list \<Rightarrow> ProcessedChunk list" where
  "filtered_results ucd valid = filter (passes_filter ucd) valid"

text \<open>
  \<open>sorted(filtered_results, key=lambda x: x.relevance_score, reverse=True)\<close>: Python's
  sort is stable, also with \<open>reverse=True\<close>, so entries with equal score keep their order.
\<close>

definition sorted_results :: "ProcessedChunk list \<Rightarrow> ProcessedChunk list" where
  "sorted_results filtered = sort_key (\<lambda>x. - pc_relevance_score x) filtered"

text \<open>Step 4: \<open>enumerate(xs, start)\<close> and the two lists built in the final loop.\<close>

fun py_enumerate :: "'a list \<Rightarrow> int \<Rightarrow> (int \<times> 'a) list" where
  "py_enumerate [] start = []"
| "py_enumerate (x # xs) start = (start, x) # py_enumerate xs (start + 1)"

definition to_section :: "int \<times> ProcessedChunk \<Rightarrow> ExtractedSection" where
  "to_section p =
     (case p of (rank, result) \<Rightarrow>
        \<lparr>es_document = pc_document result, es_section_title = pc_section_title result,
         es_importance_rank = rank, es_page_number = pc_page_number result\<rparr>)"

definition to_analysis :: "int \<times> ProcessedChunk \<Rightarrow> SubsectionAnalysis" where
  "to_analysis p =
     (case p of (rank, result) \<Rightarrow>
        \<lparr>sa_document = pc_document result, sa_refined_text = pc_refined_text result,
         sa_page_number = pc_page_number result\<rparr>)"

definition assemble :: "ProcessedChunk list \<Rightarrow> StructuredChatResponse" where
  "assemble ranked =
     (let top = py_enumerate (take 7 ranked) 1
      in \<lparr>extracted_sections = map to_section top,
          subsection_analysis = map to_analysis top\<rparr>)"

definition filter_and_sort :: "Unicode \<Rightarrow> ProcessedChunk option list \<Rightarrow> ProcessedChunk list" where
  "filter_and_sort ucd processed =
     sorted_results (filtered_results ucd (valid_results processed))"

definition no_pdfs :: failure where
  "no_pdfs = HTTPException 400
     (lit ''No PDFs analyzed. Upload documents via /analyze-pdfs/ first.'')"

definition no_relevant_docs :: failure where
  "no_relevant_docs = HTTPException 404
     (lit ''Could not find any relevant information for your query.'')"

definition none_after_filtering :: failure where
  "none_after_filtering = HTTPException 404
     (lit ''Found some initial matches, but none were relevant enough after filtering.'')"

text \<open>
  \<open>chat_with_pdfs\<close> up to its third check: the non-empty list \<open>sorted_results\<close> of the
  request, or the error raised on the way.
\<close>

definition chat_sorted_results ::
  "Unicode \<Rightarrow> Scoring \<Rightarrow> Registry \<Rightarrow> ChatRequest \<Rightarrow> failure + ProcessedChunk list" where
  "chat_sorted_results ucd ext stores request =
     (if stores = [] then Inl no_pdfs
      else
        (case all_relevant_docs stores (query request) of
           Raises \<Rightarrow> Inl Uncaught
         | Returns relevant \<Rightarrow>
             if relevant = [] then Inl no_relevant_docs
             else
               (case processing_tasks stores (unique_docs relevant) of
                  Inl e \<Rightarrow> Inl e
                | Inr tasks \<Rightarrow>
                    let ranked = filter_and_sort ucd (processed_results ext request tasks)
                    in if ranked = [] then Inl none_after_filtering else Inr ranked)))"

text \<open>\<open>chat_with_pdfs\<close>: the response, or the error raised.\<close>

definition chat_with_pdfs ::
  "Unicode \<Rightarrow> Scoring \<Rightarrow> Registry \<Rightarrow> ChatRequest \<Rightarrow> failure + StructuredChatResponse" where
  "chat_with_pdfs ucd ext stores request =
     (case chat_sorted_results ucd ext stores request of
        Inl e \<Rightarrow> Inl e
      | Inr ranked \<Rightarrow> Inr (assemble ranked))"
section \<open>Example inputs\<close>

text \<open>
  Character tables for the examples. On the code points below 256 they are those of the
  interpreter (Python 3.11); the code points from 256 on are taken as uncased and not
  white space, which the examples do not use.
\<close>

definition latin1_upper :: "codepoint \<Rightarrow> bool" where
  "latin1_upper n = ((65 \<le> n \<and> n \<le> 90) \<or> (192 \<le> n \<and> n \<le> 222 \<and> n \<noteq> 215))"

definition latin1_lower :: "codepoint \<Rightarrow> bool" where
  "latin1_lower n =
     ((97 \<le> n \<and> n \<le> 122) \<or> n = 170 \<or> n = 181 \<or> n = 186 \<or>
      (223 \<le> n \<and> n \<le> 255 \<and> n \<noteq> 247))"

definition latin1_space :: "codepoint \<Rightarrow> bool" where
  "latin1_space n = ((9 \<le> n \<and> n \<le> 13) \<or> (28 \<le> n \<and> n \<le> 32) \<or> n = 133 \<or> n = 160)"

definition ex_unicode :: Unicode where
  "ex_unicode =
     \<lparr>uc_isspace = latin1_space, uc_isupper = latin1_upper, uc_islower = latin1_lower,
      uc_istitle = (\<lambda>n. False),
      uc_lower = map (\<lambda>n. if latin1_upper n then n + 32 else n)\<rparr>"

text \<open>
  Validators that accept exactly the JSON shape of the declared type (and an integer for
  a float), as every version of the library does.
\<close>

definition strict_str :: "json \<Rightarrow> str option" where
  "strict_str j = (case j of JString s \<Rightarrow> Some s | _ \<Rightarrow> None)"

definition strict_float :: "json \<Rightarrow> real option" where
  "strict_float j = (case j of JFloat x \<Rightarrow> Some x | JInt i \<Rightarrow> Some (of_int i) | _ \<Rightarrow> None)"

definition strict_int :: "json \<Rightarrow> int option" where
  "strict_int j = (case j of JInt i \<Rightarrow> Some i | _ \<Rightarrow> None)"

definition answer :: "string \<Rightarrow> string \<Rightarrow> real \<Rightarrow> json attempt" where
  "answer title refined score =
     Returns (JObject [(lit ''section_title'', JString (lit title)),
                       (lit ''refined_text'', JString (lit refined)),
                       (lit ''relevance_score'', JFloat score)])"

text \<open>
  A scoring chain that answers by the text of the chunk: it raises on \<open>beta\<close>, scores
  \<open>gamma\<close> at exactly the threshold, picks a stoplisted title for \<open>delta\<close> (after a blank)
  and for \<open>kappa\<close> (after a no-break space, U+00A0), gives a score above the range for
  \<open>omega\<close>, leaves out a field and gives a score that is no number for \<open>theta\<close>, and
  returns a JSON array for any other text.
\<close>

definition ex_chain :: "PromptVars \<Rightarrow> json attempt" where
  "ex_chain vars =
     (if pv_context vars = lit ''alpha'' then answer ''Results'' ''a'' (9 / 10)
      else if pv_context vars = lit ''beta'' then Raises
      else if pv_context vars = lit ''gamma'' then answer ''Methods'' ''g'' threshold
      else if pv_context vars = lit ''delta'' then answer '' Introduction'' ''d'' (95 / 100)
      else if pv_context vars = lit ''kappa'' then
        answer (CHR 0xA0 # ''Introduction'') ''k'' (8 / 10)
      else if pv_context vars = lit ''zeta'' then answer ''Methods'' ''z'' (1 / 2)
      else if pv_context vars = lit ''omega'' then answer ''Results'' ''o'' (3 / 2)
      else if pv_context vars = lit ''theta'' then
        Returns (JObject [(lit ''section_title'', JString (lit ''Results'')),
                          (lit ''relevance_score'', JString (lit ''high''))])
      else Returns (JArray []))"

definition ex_scoring :: Scoring where
  "ex_scoring = \<lparr>chain_ainvoke = ex_chain, validate_str = strict_str,
     validate_float = strict_float, validate_int = strict_int\<rparr>"

definition mk_chunk :: "string \<Rightarrow> string \<Rightarrow> int \<Rightarrow> Document" where
  "mk_chunk text src pg =
     \<lparr>page_content = lit text, metadata_source = Some (lit src), metadata_page = Some pg\<rparr>"

text \<open>
  A registry of two documents. The text \<open>alpha\<close> is retrieved from both, and the second
  store also returns a chunk whose source \<open>c.pdf\<close> is not registered.
\<close>

definition ex_stores :: Registry where
  "ex_stores =
     [(lit ''a.pdf'',
       \<lparr>vector_store = (\<lambda>k q. Returns (take k
          [mk_chunk ''zeta'' ''a.pdf'' 0, mk_chunk ''alpha'' ''a.pdf'' 1,
           mk_chunk ''beta'' ''a.pdf'' 2, mk_chunk ''gamma'' ''a.pdf'' 2,
           mk_chunk ''kappa'' ''a.pdf'' 4])),
        headings = [lit ''Results'', lit ''Methods'']\<rparr>),
      (lit ''b.pdf'',
       \<lparr>vector_store = (\<lambda>k q. Returns (take k
          [mk_chunk ''delta'' ''b.pdf'' 0, mk_chunk ''alpha'' ''b.pdf'' 3,
           mk_chunk ''eps'' ''c.pdf'' 0])),
        headings = [lit ''Introduction'']\<rparr>)]"

definition ex_request :: ChatRequest where
  "ex_request = \<lparr>query = lit ''q'', persona = None\<rparr>"

definition ex_pool :: "Document list" where
  "ex_pool =
     [mk_chunk ''zeta'' ''a.pdf'' 0, mk_chunk ''alpha'' ''a.pdf'' 1, mk_chunk ''beta'' ''a.pdf'' 2,
      mk_chunk ''gamma'' ''a.pdf'' 2, mk_chunk ''kappa'' ''a.pdf'' 4, mk_chunk ''delta'' ''b.pdf'' 0,
      mk_chunk ''alpha'' ''b.pdf'' 3, mk_chunk ''eps'' ''c.pdf'' 0]"

definition ex_tasks :: "(Document \<times> str list) list" where
  "ex_tasks =
     [(mk_chunk ''zeta'' ''a.pdf'' 0, [lit ''Results'', lit ''Methods'']),
      (mk_chunk ''alpha'' ''b.pdf'' 3, [lit ''Introduction'']),
      (mk_chunk ''beta'' ''a.pdf'' 2, [lit ''Results'', lit ''Methods'']),
      (mk_chunk ''gamma'' ''a.pdf'' 2, [lit ''Results'', lit ''Methods'']),
      (mk_chunk ''kappa'' ''a.pdf'' 4, [lit ''Results'', lit ''Methods'']),
      (mk_chunk ''delta'' ''b.pdf'' 0, [lit ''Introduction''])]"

definition scored :: "string \<Rightarrow> string \<Rightarrow> real \<Rightarrow> string \<Rightarrow> int \<Rightarrow> ProcessedChunk" where
  "scored title refined score doc pg =
     \<lparr>pc_section_title = lit title, pc_refined_text = lit refined, pc_relevance_score = score,
      pc_document = lit doc, pc_page_number = pg\<rparr>"

definition ex_processed :: "ProcessedChunk option list" where
  "ex_processed =
     [Some (scored ''Methods'' ''z'' (1 / 2) ''a.pdf'' 1),
      Some (scored ''Results'' ''a'' (9 / 10) ''b.pdf'' 4),
      None,
      Some (scored ''Methods'' ''g'' threshold ''a.pdf'' 3),
      Some (scored (CHR 0xA0 # ''Introduction'') ''k'' (8 / 10) ''a.pdf'' 5),
      Some (scored '' Introduction'' ''d'' (95 / 100) ''b.pdf'' 1)]"

definition ex_ranked :: "ProcessedChunk list" where
  "ex_ranked =
     [scored ''Results'' ''a'' (9 / 10) ''b.pdf'' 4,
      scored ''Methods'' ''z'' (1 / 2) ''a.pdf'' 1]"

definition ex_response :: StructuredChatResponse where
  "ex_response =
     \<lparr>extracted_sections =
        [\<lparr>es_document = lit ''b.pdf'', es_section_title = lit ''Results'',
          es_importance_rank = 1, es_page_number = 4\<rparr>,
         \<lparr>es_document = lit ''a.pdf'', es_section_title = lit ''Methods'',
          es_importance_rank = 2, es_page_number = 1\<rparr>],
      subsection_analysis =
        [\<lparr>sa_document = lit ''b.pdf'', sa_refined_text = lit ''a'', sa_page_number = 4\<rparr>,
         \<lparr>sa_document = lit ''a.pdf'', sa_refined_text = lit ''z'', sa_page_number = 1\<rparr>]\<rparr>"

text \<open>Four filtered results with two pairs of equal scores.\<close>

definition ex_tied :: "ProcessedChunk list" where
  "ex_tied =
     [scored ''A'' ''a'' (1 / 2) ''a.pdf'' 1, scored ''B'' ''b'' (9 / 10) ''a.pdf'' 2,
      scored ''C'' ''c'' (1 / 2) ''a.pdf'' 3, scored ''D'' ''d'' (9 / 10) ''a.pdf'' 4]"

text \<open>
  Three registries of one document: one whose store returns nothing for any query, one
  whose only chunk gets a stoplisted title from the example chain, and one whose store
  raises.
\<close>

definition ex_silent :: Registry where
  "ex_silent =
     [(lit ''a.pdf'', \<lparr>vector_store = (\<lambda>k q. Returns []), headings = [lit ''Results'']\<rparr>)]"

definition ex_intro :: Registry where
  "ex_intro =
     [(lit ''b.pdf'',
       \<lparr>vector_store = (\<lambda>k q. Returns (take k [mk_chunk ''delta'' ''b.pdf'' 0])),
        headings = [lit ''Introduction'']\<rparr>)]"

definition ex_raising :: Registry where
  "ex_raising =
     [(lit ''a.pdf'', \<lparr>vector_store = (\<lambda>k q. Raises), headings = [lit ''Results'']\<rparr>)]"

text \<open>
  A page of seven lines: an upper-case heading, a title-case heading with blanks around
  it, a body line, an upper-case line of three characters, an upper-case heading between
  two no-break spaces, a title-case heading that starts with a capital E with acute
  accent (U+00C9), and the first heading again.
\<close>

definition ex_page :: string where
  "ex_page = ''INTRODUCTION'' @ [CHR 0x0A] @ ''  Some Heading Words  '' @ [CHR 0x0A]
     @ ''body text here'' @ [CHR 0x0A] @ ''ABC'' @ [CHR 0x0A]
     @ [CHR 0xA0] @ ''RESULTS'' @ [CHR 0xA0] @ [CHR 0x0A]
     @ [CHR 0xC9] @ ''mile Zola'' @ [CHR 0x0A] @ ''INTRODUCTION''"

definition ex_text :: str where
  "ex_text = lit ex_page"

text \<open>
  External steps for the examples: the temporary directory is created and removed,
  writing raises on a file name with a slash; the loader
  raises on the content \<open>broken\<close>, returns no page for \<open>blank\<close> and one page holding the
  content otherwise; the splitter raises on a page \<open>unsplittable\<close>; the index build
  raises on a chunk \<open>unindexable\<close>.
\<close>

definition ex_ingestion :: Ingestion where
  "ex_ingestion =
     \<lparr>make_temp_dir = Returns (),
      write_upload = (\<lambda>file. if 47 \<in> set (filename file) then Raises else Returns ()),
      remove_temp_dir = Returns (),
      loader_load = (\<lambda>content.
        if content = ''broken'' then Raises
        else if content = ''blank'' then Returns []
        else Returns [\<lparr>page_content = lit content, metadata_source = None,
                        metadata_page = Some 0\<rparr>]),
      split_documents = (\<lambda>docs.
        if lit ''unsplittable'' \<in> set (map page_content docs) then Raises else Returns docs),
      from_documents = (\<lambda>chunks.
        if lit ''unindexable'' \<in> set (map page_content chunks) then Raises
        else Returns (\<lambda>k q. Returns (take k chunks)))\<rparr>"

definition upload :: "string \<Rightarrow> string \<Rightarrow> UploadFile" where
  "upload name content = \<lparr>filename = lit name, file_bytes = content\<rparr>"

definition ex_files :: "UploadFile list" where
  "ex_files =
     [upload ''one.pdf'' ex_page, upload ''two.pdf'' ''broken'', upload ''notes.txt'' ''x'',
      upload ''three.PDF'' ''Some Heading Words'', upload ''four.pdf'' ''blank'',
      upload ''five.pdf'' ''unsplittable'', upload ''six.pdf'' ''unindexable'']"

definition entry :: "string \<Rightarrow> nat \<Rightarrow> PDFAnalysisResult" where
  "entry name n =
     \<lparr>par_filename = lit name, par_status = lit ''Successfully processed and indexed.'',
      extracted_headings_count = n\<rparr>"
section \<open>Properties\<close>

subsection \<open>Literals\<close>

lemma lit_eq_iff [simp]: "lit a = lit b \<longleftrightarrow> a = b"
proof -
  have "inj (of_char :: char \<Rightarrow> nat)"
    by (rule injI) simp
  then show ?thesis
    unfolding lit_def by (rule inj_map_eq_map)
qed

lemma length_lit [simp]: "length (lit s) = length s"
  by (simp add: lit_def)

lemma lit_Cons: "lit (c # cs) = of_char c # lit cs"
  by (simp add: lit_def)

subsection \<open>The example request, stage by stage\<close>

lemma ex_relevant: "all_relevant_docs ex_stores (query ex_request) = Returns ex_pool"
  by (simp add: all_relevant_docs_def ex_stores_def ex_request_def ex_pool_def)

lemma ex_unique:
  "unique_docs ex_pool =
     [mk_chunk ''zeta'' ''a.pdf'' 0, mk_chunk ''alpha'' ''b.pdf'' 3, mk_chunk ''beta'' ''a.pdf'' 2,
      mk_chunk ''gamma'' ''a.pdf'' 2, mk_chunk ''kappa'' ''a.pdf'' 4, mk_chunk ''delta'' ''b.pdf'' 0,
      mk_chunk ''eps'' ''c.pdf'' 0]"
  by (simp add: ex_pool_def unique_docs_def mk_chunk_def)

lemma ex_processing_tasks: "processing_tasks ex_stores (unique_docs ex_pool) = Inr ex_tasks"
  unfolding ex_unique by (simp add: mk_chunk_def ex_stores_def getitem_def ex_tasks_def)

lemma ex_processed_results:
  "processed_results ex_scoring ex_request ex_tasks = ex_processed"
  by (simp add: processed_results_def ex_request_def ex_tasks_def ex_processed_def scored_def
      process_chunk_def prompt_vars_def ex_scoring_def ex_chain_def answer_def mk_chunk_def
      ProcessedChunk_init_def field_def strict_str_def strict_float_def strict_int_def
      threshold_def)

lemma ex_titles:
  "py_strip ex_unicode (py_lower ex_unicode (lit ''Methods'')) = lit ''methods''"
  "py_strip ex_unicode (py_lower ex_unicode (lit ''Results'')) = lit ''results''"
  "py_strip ex_unicode (py_lower ex_unicode (lit '' Introduction'')) = lit ''introduction''"
  "py_strip ex_unicode (py_lower ex_unicode (lit (CHR 0xA0 # ''Introduction'')))
     = lit ''introduction''"
  by code_simp+

lemma ex_filter_and_sort: "filter_and_sort ex_unicode ex_processed = ex_ranked"
  by (simp add: filter_and_sort_def sorted_results_def filtered_results_def passes_filter_def
      ex_processed_def ex_ranked_def scored_def STOP_TITLES_def ex_titles threshold_def)

lemma ex_sorted_results:
  "chat_sorted_results ex_unicode ex_scoring ex_stores ex_request = Inr ex_ranked"
proof -
  have "ex_stores \<noteq> []" "ex_ranked \<noteq> []" "ex_pool \<noteq> []"
    by (simp_all add: ex_stores_def ex_ranked_def ex_pool_def)
  then show ?thesis
    by (simp add: chat_sorted_results_def ex_relevant ex_processing_tasks ex_processed_results
        ex_filter_and_sort)
qed

lemma ex_assemble: "assemble ex_ranked = ex_response"
  by (simp add: assemble_def ex_ranked_def ex_response_def to_section_def to_analysis_def
      scored_def)

lemma ex_chat: "chat_with_pdfs ex_unicode ex_scoring ex_stores ex_request = Inr ex_response"
  by (simp add: chat_with_pdfs_def ex_sorted_results ex_assemble)
subsection \<open>Shared facts about the pipeline\<close>

lemma threshold_above: "4 / 10 < threshold"
  by (simp add: threshold_def)

lemma chat_success:
  "chat_with_pdfs ucd ext stores request = Inr response \<longleftrightarrow>
     (\<exists>ranked. chat_sorted_results ucd ext stores request = Inr ranked \<and>
        response = assemble ranked)"
  by (auto simp: chat_with_pdfs_def split: sum.splits)

lemma chat_sorted_success:
  "chat_sorted_results ucd ext stores request = Inr ranked \<Longrightarrow>
     ranked \<noteq> [] \<and> (\<exists>processed. ranked = filter_and_sort ucd processed)"
  by (auto simp: chat_sorted_results_def Let_def split: if_splits sum.splits attempt.splits)

lemma set_valid_results: "set (valid_results processed) = {res. Some res \<in> set processed}"
  by (induction processed rule: valid_results.induct) auto

lemma set_filter_and_sort:
  "set (filter_and_sort ucd processed)
     = {res. Some res \<in> set processed \<and> passes_filter ucd res}"
  by (auto simp: filter_and_sort_def sorted_results_def filtered_results_def
      set_valid_results)

subsection \<open>The relevance threshold\<close>

text \<open>
  C2. A scored chunk is in the filtered result set only if its relevance score is
  strictly greater than 0.4: a chunk scored exactly 0.4, whether the real number four
  tenths or the double that the literal denotes, is excluded, and every result that a
  successful response is assembled from has a score strictly above 0.4.
\<close>

theorem filtered_above_threshold:
  "(\<forall>res \<in> set (filtered_results ucd valid). 4 / 10 < pc_relevance_score res) \<and>
   (pc_relevance_score res = 4 / 10 \<longrightarrow> res \<notin> set (filtered_results ucd valid)) \<and>
   (pc_relevance_score res = threshold \<longrightarrow> res \<notin> set (filtered_results ucd valid)) \<and>
   (chat_with_pdfs ucd ext stores request = Inr response \<longrightarrow>
      (\<exists>ranked. chat_sorted_results ucd ext stores request = Inr ranked \<and>
         response = assemble ranked \<and>
         (\<forall>res \<in> set ranked. 4 / 10 < pc_relevance_score res)))"
proof -
  have a: "\<forall>res \<in> set (filtered_results ucd valid). 4 / 10 < pc_relevance_score res"
    using threshold_above by (auto simp: filtered_results_def passes_filter_def)
  have b: "pc_relevance_score res = 4 / 10 \<longrightarrow> res \<notin> set (filtered_results ucd valid)"
    using a by auto
  have c: "pc_relevance_score res = threshold \<longrightarrow> res \<notin> set (filtered_results ucd valid)"
    by (auto simp: filtered_results_def passes_filter_def)
  have d: "\<exists>ranked. chat_sorted_results ucd ext stores request = Inr ranked \<and>
         response = assemble ranked \<and>
         (\<forall>res \<in> set ranked. 4 / 10 < pc_relevance_score res)"
    if "chat_with_pdfs ucd ext stores request = Inr response"
  proof -
    from that obtain ranked where r:
      "chat_sorted_results ucd ext stores request = Inr ranked" "response = assemble ranked"
      by (auto simp: chat_success)
    then obtain processed where "ranked = filter_and_sort ucd processed"
      using chat_sorted_success by blast
    then have "\<forall>res \<in> set ranked. 4 / 10 < pc_relevance_score res"
      using threshold_above by (auto simp: set_filter_and_sort passes_filter_def)
    with r show ?thesis by blast
  qed
  from a b c d show ?thesis by blast
qed

theorem filtered_above_threshold_witness:
  "filtered_results ex_unicode (valid_results ex_processed) = rev ex_ranked \<and>
   4 / 10 < pc_relevance_score (scored ''Results'' ''a'' (9 / 10) ''b.pdf'' 4) \<and>
   4 / 10 < pc_relevance_score (scored ''Methods'' ''z'' (1 / 2) ''a.pdf'' 1) \<and>
   scored ''Methods'' ''g'' threshold ''a.pdf'' 3 \<in> set (valid_results ex_processed) \<and>
   scored ''Methods'' ''g'' threshold ''a.pdf'' 3
      \<notin> set (filtered_results ex_unicode (valid_results ex_processed)) \<and>
   chat_with_pdfs ex_unicode ex_scoring ex_stores ex_request = Inr ex_response \<and>
   (\<exists>ranked. chat_sorted_results ex_unicode ex_scoring ex_stores ex_request = Inr ranked \<and>
      ex_response = assemble ranked \<and> list_all (\<lambda>res. 4 / 10 < pc_relevance_score res) ranked)"
proof -
  have f: "filtered_results ex_unicode (valid_results ex_processed) = rev ex_ranked"
    by (simp add: filtered_results_def passes_filter_def ex_processed_def ex_ranked_def
        scored_def STOP_TITLES_def ex_titles threshold_def)
  have g: "pc_relevance_score (scored ''Methods'' ''g'' threshold ''a.pdf'' 3) = threshold"
    by (simp add: scored_def)
  have v: "scored ''Methods'' ''g'' threshold ''a.pdf'' 3 \<in> set (valid_results ex_processed)"
    by (simp add: ex_processed_def)
  note t = filtered_above_threshold [of ex_unicode "valid_results ex_processed"
      "scored ''Methods'' ''g'' threshold ''a.pdf'' 3" ex_scoring ex_stores ex_request ex_response]
  from t g have out: "scored ''Methods'' ''g'' threshold ''a.pdf'' 3
      \<notin> set (filtered_results ex_unicode (valid_results ex_processed))"
    by blast
  from t f have above: "\<forall>res \<in> set ex_ranked. 4 / 10 < pc_relevance_score res"
    by simp
  from t ex_chat
  have "\<exists>ranked. chat_sorted_results ex_unicode ex_scoring ex_stores ex_request = Inr ranked \<and>
      ex_response = assemble ranked \<and> (\<forall>res \<in> set ranked. 4 / 10 < pc_relevance_score res)"
    by blast
  then have e: "\<exists>ranked. chat_sorted_results ex_unicode ex_scoring ex_stores ex_request = Inr ranked \<and>
      ex_response = assemble ranked \<and> list_all (\<lambda>res. 4 / 10 < pc_relevance_score res) ranked"
    by (simp add: list_all_iff)
  from above have "4 / 10 < pc_relevance_score (scored ''Results'' ''a'' (9 / 10) ''b.pdf'' 4)"
    "4 / 10 < pc_relevance_score (scored ''Methods'' ''z'' (1 / 2) ''a.pdf'' 1)"
    by (simp_all add: ex_ranked_def)
  with f v out ex_chat e show ?thesis by blast
qed

lemma map_fst_py_enumerate:
  "map fst (py_enumerate xs start) = map (\<lambda>i. start + int i) [0..<length xs]"
proof (induction xs arbitrary: start)
  case Nil
  then show ?case by simp
next
  case (Cons x xs)
  have "map (\<lambda>i. start + int i) [0..<Suc (length xs)]
          = start # map (\<lambda>i. start + 1 + int i) [0..<length xs]"
    by (simp add: upt_rec [of 0] map_Suc_upt [symmetric] del: upt_Suc)
  with Cons show ?case by simp
qed

lemma map_snd_py_enumerate: "map snd (py_enumerate xs start) = xs"
  by (induction xs arbitrary: start) auto

lemma length_py_enumerate: "length (py_enumerate xs start) = length xs"
  by (induction xs arbitrary: start) auto

lemma assemble_sections:
  "extracted_sections (assemble ranked) = map to_section (py_enumerate (take 7 ranked) 1)"
  by (simp add: assemble_def Let_def)

lemma assemble_analysis:
  "subsection_analysis (assemble ranked) = map to_analysis (py_enumerate (take 7 ranked) 1)"
  by (simp add: assemble_def Let_def)

lemma assemble_sections_titles:
  "map es_section_title (extracted_sections (assemble ranked))
     = map pc_section_title (take 7 ranked)"
proof -
  have "map es_section_title (map to_section (py_enumerate xs start)) = map pc_section_title xs"
    for xs start
    by (induction xs arbitrary: start) (auto simp: to_section_def)
  then show ?thesis unfolding assemble_sections by blast
qed

subsection \<open>The stoplist\<close>

text \<open>
  C3. A scored chunk whose section title, lower-cased and trimmed, is in the stoplist
  is dropped by the filter, so before ranking; no result that a successful response is
  assembled from has such a title. Lower-casing and trimming are the interpreter's, on
  Unicode: the statement holds for whatever its character tables are.
\<close>

theorem stoplist_titles_dropped:
  "(py_strip ucd (py_lower ucd (pc_section_title res)) \<in> STOP_TITLES \<longrightarrow>
      res \<notin> set (filtered_results ucd valid) \<and>
      res \<notin> set (sorted_results (filtered_results ucd valid))) \<and>
   (chat_with_pdfs ucd ext stores request = Inr response \<longrightarrow>
      (\<exists>ranked. chat_sorted_results ucd ext stores request = Inr ranked \<and>
         response = assemble ranked \<and>
         map es_section_title (extracted_sections response)
           = map pc_section_title (take 7 ranked) \<and>
         (\<forall>res \<in> set ranked.
            py_strip ucd (py_lower ucd (pc_section_title res)) \<notin> STOP_TITLES) \<and>
         (\<forall>section \<in> set (extracted_sections response).
            py_strip ucd (py_lower ucd (es_section_title section)) \<notin> STOP_TITLES)))"
proof -
  have a: "res \<notin> set (filtered_results ucd valid) \<and>
      res \<notin> set (sorted_results (filtered_results ucd valid))"
    if "py_strip ucd (py_lower ucd (pc_section_title res)) \<in> STOP_TITLES"
    using that by (simp add: filtered_results_def sorted_results_def passes_filter_def)
  have b: "\<exists>ranked. chat_sorted_results ucd ext stores request = Inr ranked \<and>
         response = assemble ranked \<and>
         map es_section_title (extracted_sections response)
           = map pc_section_title (take 7 ranked) \<and>
         (\<forall>res \<in> set ranked.
            py_strip ucd (py_lower ucd (pc_section_title res)) \<notin> STOP_TITLES) \<and>
         (\<forall>section \<in> set (extracted_sections response).
            py_strip ucd (py_lower ucd (es_section_title section)) \<notin> STOP_TITLES)"
    if "chat_with_pdfs ucd ext stores request = Inr response"
  proof -
    from that obtain ranked where r:
      "chat_sorted_results ucd ext stores request = Inr ranked" "response = assemble ranked"
      by (auto simp: chat_success)
    then obtain processed where "ranked = filter_and_sort ucd processed"
      using chat_sorted_success by blast
    then have clean: "\<forall>res \<in> set ranked.
        py_strip ucd (py_lower ucd (pc_section_title res)) \<notin> STOP_TITLES"
      by (auto simp: set_filter_and_sort passes_filter_def)
    have titles: "map es_section_title (extracted_sections response)
           = map pc_section_title (take 7 ranked)"
      by (simp add: r(2) assemble_sections_titles)
    have "set (map es_section_title (extracted_sections response))
            \<subseteq> pc_section_title ` set ranked"
      unfolding titles using set_take_subset [of 7 ranked] by auto
    with clean have "\<forall>section \<in> set (extracted_sections response).
            py_strip ucd (py_lower ucd (es_section_title section)) \<notin> STOP_TITLES"
      by auto
    with r clean titles show ?thesis by blast
  qed
  from a b show ?thesis by blast
qed

theorem stoplist_titles_dropped_witness:
  "py_strip ex_unicode (py_lower ex_unicode
      (pc_section_title (scored '' Introduction'' ''d'' (95 / 100) ''b.pdf'' 1))) \<in> STOP_TITLES \<and>
   scored '' Introduction'' ''d'' (95 / 100) ''b.pdf'' 1 \<in> set (valid_results ex_processed) \<and>
   scored '' Introduction'' ''d'' (95 / 100) ''b.pdf'' 1
      \<notin> set (filtered_results ex_unicode (valid_results ex_processed)) \<and>
   py_strip ex_unicode (py_lower ex_unicode
      (pc_section_title (scored (CHR 0xA0 # ''Introduction'') ''k'' (8 / 10) ''a.pdf'' 5)))
      \<in> STOP_TITLES \<and>
   scored (CHR 0xA0 # ''Introduction'') ''k'' (8 / 10) ''a.pdf'' 5
      \<in> set (valid_results ex_processed) \<and>
   scored (CHR 0xA0 # ''Introduction'') ''k'' (8 / 10) ''a.pdf'' 5
      \<notin> set (filtered_results ex_unicode (valid_results ex_processed)) \<and>
   chat_with_pdfs ex_unicode ex_scoring ex_stores ex_request = Inr ex_response \<and>
   map es_section_title (extracted_sections ex_response) = [lit ''Results'', lit ''Methods''] \<and>
   list_all (\<lambda>section.
       py_strip ex_unicode (py_lower ex_unicode (es_section_title section)) \<notin> STOP_TITLES)
     (extracted_sections ex_response)"
proof -
  let ?blank = "scored '' Introduction'' ''d'' (95 / 100) ''b.pdf'' 1"
  let ?nbsp = "scored (CHR 0xA0 # ''Introduction'') ''k'' (8 / 10) ''a.pdf'' 5"
  have s: "py_strip ex_unicode (py_lower ex_unicode (pc_section_title ?blank)) \<in> STOP_TITLES"
    "py_strip ex_unicode (py_lower ex_unicode (pc_section_title ?nbsp)) \<in> STOP_TITLES"
    by (simp_all add: scored_def ex_titles STOP_TITLES_def)
  have v: "?blank \<in> set (valid_results ex_processed)" "?nbsp \<in> set (valid_results ex_processed)"
    by (simp_all add: ex_processed_def)
  note t = stoplist_titles_dropped [of ex_unicode ?blank "valid_results ex_processed"
      ex_scoring ex_stores ex_request ex_response]
  note t' = stoplist_titles_dropped [of ex_unicode ?nbsp "valid_results ex_processed"
      ex_scoring ex_stores ex_request ex_response]
  from t s(1) have out: "?blank \<notin> set (filtered_results ex_unicode (valid_results ex_processed))"
    by blast
  from t' s(2) have out': "?nbsp \<notin> set (filtered_results ex_unicode (valid_results ex_processed))"
    by blast
  from t ex_chat have "\<forall>section \<in> set (extracted_sections ex_response).
      py_strip ex_unicode (py_lower ex_unicode (es_section_title section)) \<notin> STOP_TITLES"
    by blast
  then have l: "list_all (\<lambda>section.
       py_strip ex_unicode (py_lower ex_unicode (es_section_title section)) \<notin> STOP_TITLES)
     (extracted_sections ex_response)"
    by (simp add: list_all_iff)
  have m: "map es_section_title (extracted_sections ex_response)
      = [lit ''Results'', lit ''Methods'']"
    by (simp add: ex_response_def)
  from s v out out' ex_chat m l show ?thesis by blast
qed
subsection \<open>Sort order\<close>

lemma sorted_results_descending:
  assumes "i < j" "j < length (sorted_results filtered)"
  shows "pc_relevance_score (sorted_results filtered ! j)
           \<le> pc_relevance_score (sorted_results filtered ! i)"
proof -
  let ?key = "\<lambda>x. - pc_relevance_score x"
  have "sorted (map ?key (sorted_results filtered))"
    by (simp add: sorted_results_def)
  moreover have "j < length (map ?key (sorted_results filtered))"
    using assms(2) by simp
  ultimately have "map ?key (sorted_results filtered) ! i \<le> map ?key (sorted_results filtered) ! j"
    using assms(1) by (simp only: sorted_iff_nth_mono_less)
  with assms show ?thesis by simp
qed

lemma sorted_results_stable:
  "filter (\<lambda>res. pc_relevance_score res = s) (sorted_results filtered)
     = filter (\<lambda>res. pc_relevance_score res = s) filtered"
proof -
  have "filter (\<lambda>res. - pc_relevance_score res = - s) (sorted_results filtered)
     = filter (\<lambda>res. - pc_relevance_score res = - s) filtered"
    unfolding sorted_results_def by (rule sort_key_stable)
  then show ?thesis by simp
qed

text \<open>
  C4. The sorted results are in descending order of relevance score: an entry placed
  before another has a score at least as large. The sort is stable: the entries of any
  one score appear in the sorted list in the order they had before sorting, and in the
  truncated list they are the first of them in that order. A successful response is
  assembled from a list sorted this way.
\<close>

theorem sorted_descending_and_stable:
  "(\<forall>i j. i < j \<longrightarrow> j < length (sorted_results filtered) \<longrightarrow>
      pc_relevance_score (sorted_results filtered ! j)
        \<le> pc_relevance_score (sorted_results filtered ! i)) \<and>
   filter (\<lambda>res. pc_relevance_score res = s) (sorted_results filtered)
     = filter (\<lambda>res. pc_relevance_score res = s) filtered \<and>
   prefix (filter (\<lambda>res. pc_relevance_score res = s) (take n (sorted_results filtered)))
     (filter (\<lambda>res. pc_relevance_score res = s) filtered) \<and>
   (chat_with_pdfs ucd ext stores request = Inr response \<longrightarrow>
      (\<exists>ranked processed.
         chat_sorted_results ucd ext stores request = Inr ranked \<and>
         response = assemble ranked \<and>
         ranked = sorted_results (filtered_results ucd (valid_results processed)) \<and>
         (\<forall>i j. i < j \<longrightarrow> j < length ranked \<longrightarrow>
            pc_relevance_score (ranked ! j) \<le> pc_relevance_score (ranked ! i))))"
proof -
  have a: "\<forall>i j. i < j \<longrightarrow> j < length (sorted_results filtered) \<longrightarrow>
      pc_relevance_score (sorted_results filtered ! j)
        \<le> pc_relevance_score (sorted_results filtered ! i)"
    using sorted_results_descending by blast
  have b: "filter (\<lambda>res. pc_relevance_score res = s) (sorted_results filtered)
     = filter (\<lambda>res. pc_relevance_score res = s) filtered"
    by (rule sorted_results_stable)
  have "prefix (filter (\<lambda>res. pc_relevance_score res = s) (take n (sorted_results filtered)))
     (filter (\<lambda>res. pc_relevance_score res = s) (sorted_results filtered))"
    by (intro filter_mono_prefix take_is_prefix)
  then have c: "prefix (filter (\<lambda>res. pc_relevance_score res = s) (take n (sorted_results filtered)))
     (filter (\<lambda>res. pc_relevance_score res = s) filtered)"
    by (simp only: b)
  have d: "\<exists>ranked processed.
         chat_sorted_results ucd ext stores request = Inr ranked \<and>
         response = assemble ranked \<and>
         ranked = sorted_results (filtered_results ucd (valid_results processed)) \<and>
         (\<forall>i j. i < j \<longrightarrow> j < length ranked \<longrightarrow>
            pc_relevance_score (ranked ! j) \<le> pc_relevance_score (ranked ! i))"
    if "chat_with_pdfs ucd ext stores request = Inr response"
  proof -
    from that obtain ranked where r:
      "chat_sorted_results ucd ext stores request = Inr ranked" "response = assemble ranked"
      by (auto simp: chat_success)
    then obtain processed where p: "ranked = filter_and_sort ucd processed"
      using chat_sorted_success by blast
    then have q: "ranked = sorted_results (filtered_results ucd (valid_results processed))"
      by (simp add: filter_and_sort_def)
    then have "\<forall>i j. i < j \<longrightarrow> j < length ranked \<longrightarrow>
            pc_relevance_score (ranked ! j) \<le> pc_relevance_score (ranked ! i)"
      using sorted_results_descending by blast
    with r q show ?thesis by blast
  qed
  from a b c d show ?thesis by blast
qed

theorem sorted_descending_and_stable_witness:
  "sorted_results ex_tied = [scored ''B'' ''b'' (9 / 10) ''a.pdf'' 2, scored ''D'' ''d'' (9 / 10) ''a.pdf'' 4,
      scored ''A'' ''a'' (1 / 2) ''a.pdf'' 1, scored ''C'' ''c'' (1 / 2) ''a.pdf'' 3] \<and>
   pc_relevance_score (sorted_results ex_tied ! 2) \<le> pc_relevance_score (sorted_results ex_tied ! 1) \<and>
   filter (\<lambda>res. pc_relevance_score res = 1 / 2) (sorted_results ex_tied)
     = [scored ''A'' ''a'' (1 / 2) ''a.pdf'' 1, scored ''C'' ''c'' (1 / 2) ''a.pdf'' 3] \<and>
   prefix (filter (\<lambda>res. pc_relevance_score res = 1 / 2) (take 3 (sorted_results ex_tied)))
     [scored ''A'' ''a'' (1 / 2) ''a.pdf'' 1, scored ''C'' ''c'' (1 / 2) ''a.pdf'' 3] \<and>
   chat_with_pdfs ex_unicode ex_scoring ex_stores ex_request = Inr ex_response \<and>
   (\<exists>ranked. chat_sorted_results ex_unicode ex_scoring ex_stores ex_request = Inr ranked \<and>
      ex_response = assemble ranked \<and>
      sorted (rev (map pc_relevance_score ranked)))"
proof -
  note t = sorted_descending_and_stable [of ex_tied "1 / 2" 3 ex_unicode ex_scoring ex_stores ex_request
      ex_response]
  have s: "sorted_results ex_tied = [scored ''B'' ''b'' (9 / 10) ''a.pdf'' 2,
      scored ''D'' ''d'' (9 / 10) ''a.pdf'' 4,
      scored ''A'' ''a'' (1 / 2) ''a.pdf'' 1, scored ''C'' ''c'' (1 / 2) ''a.pdf'' 3]"
    by (simp add: sorted_results_def ex_tied_def scored_def)
  have l: "(1::nat) < 2" "2 < length (sorted_results ex_tied)"
    by (simp_all add: s)
  from t l have o: "pc_relevance_score (sorted_results ex_tied ! 2)
      \<le> pc_relevance_score (sorted_results ex_tied ! 1)"
    by blast
  have f: "filter (\<lambda>res. pc_relevance_score res = 1 / 2) ex_tied
     = [scored ''A'' ''a'' (1 / 2) ''a.pdf'' 1, scored ''C'' ''c'' (1 / 2) ''a.pdf'' 3]"
    by (simp add: ex_tied_def scored_def)
  from t f have st: "filter (\<lambda>res. pc_relevance_score res = 1 / 2) (sorted_results ex_tied)
     = [scored ''A'' ''a'' (1 / 2) ''a.pdf'' 1, scored ''C'' ''c'' (1 / 2) ''a.pdf'' 3]"
    by simp
  from t f have p: "prefix (filter (\<lambda>res. pc_relevance_score res = 1 / 2)
       (take 3 (sorted_results ex_tied)))
     [scored ''A'' ''a'' (1 / 2) ''a.pdf'' 1, scored ''C'' ''c'' (1 / 2) ''a.pdf'' 3]"
    by simp
  from t ex_chat obtain ranked where r:
    "chat_sorted_results ex_unicode ex_scoring ex_stores ex_request = Inr ranked"
    "ex_response = assemble ranked"
    by blast
  then have "ranked = ex_ranked"
    by (simp add: ex_sorted_results)
  then have "sorted (rev (map pc_relevance_score ranked))"
    by (simp add: ex_ranked_def scored_def)
  with r have e: "\<exists>ranked. chat_sorted_results ex_unicode ex_scoring ex_stores ex_request = Inr ranked \<and>
      ex_response = assemble ranked \<and> sorted (rev (map pc_relevance_score ranked))"
    by blast
  from s o st p ex_chat e show ?thesis by blast
qed

subsection \<open>The assembled response\<close>

lemma nth_py_enumerate:
  "i < length xs \<Longrightarrow> py_enumerate xs start ! i = (start + int i, xs ! i)"
proof (induction xs arbitrary: start i)
  case Nil
  then show ?case by simp
next
  case (Cons x xs)
  then show ?case by (cases i) auto
qed

lemma upt_as_upto: "map (\<lambda>i. start + int i) [0..<n] = [start..start + int n - 1]"
proof (induction n)
  case 0
  then show ?case by simp
next
  case (Suc n)
  have "[start..start + int (Suc n) - 1] = [start..start + int n - 1] @ [start + int n]"
    using upto_rec2 [of start "start + int n"] by simp
  with Suc show ?case by simp
qed

lemma assemble_ranks:
  "map es_importance_rank (extracted_sections (assemble ranked))
     = [1..int (length (extracted_sections (assemble ranked)))]"
proof -
  have "map es_importance_rank (map to_section ps) = map fst ps" for ps
    by (induction ps) (auto simp: to_section_def)
  then have "map es_importance_rank (extracted_sections (assemble ranked))
      = map (\<lambda>i. 1 + int i) [0..<length (take 7 ranked)]"
    unfolding assemble_sections by (simp only: map_fst_py_enumerate)
  also have "\<dots> = [1..int (length (take 7 ranked))]"
    using upt_as_upto [of 1 "length (take 7 ranked)"] by simp
  finally show ?thesis
    by (simp add: assemble_sections length_py_enumerate)
qed

text \<open>
  C5. The response assembled from a sorted list has two lists of the length of that
  list, cut at 7. In every successful response the two lists have the same length,
  between 1 and 7;
  at each position the section and the analysis are built from the same sorted result,
  so they agree on document and page; and the importance ranks are 1, 2, ..., length.
\<close>

theorem response_lists_aligned:
  "length (extracted_sections (assemble sorted_list)) = min 7 (length sorted_list) \<and>
   length (subsection_analysis (assemble sorted_list)) = min 7 (length sorted_list) \<and>
   (chat_with_pdfs ucd ext stores request = Inr response \<longrightarrow>
     length (extracted_sections response) = length (subsection_analysis response) \<and>
     1 \<le> length (extracted_sections response) \<and>
     length (extracted_sections response) \<le> 7 \<and>
     map es_importance_rank (extracted_sections response)
       = [1..int (length (extracted_sections response))] \<and>
     (\<exists>ranked. chat_sorted_results ucd ext stores request = Inr ranked \<and>
        length (extracted_sections response) = min 7 (length ranked) \<and>
        (\<forall>i < length (extracted_sections response).
           extracted_sections response ! i = to_section (int i + 1, ranked ! i) \<and>
           subsection_analysis response ! i = to_analysis (int i + 1, ranked ! i) \<and>
           es_document (extracted_sections response ! i)
             = sa_document (subsection_analysis response ! i) \<and>
           es_page_number (extracted_sections response ! i)
             = sa_page_number (subsection_analysis response ! i))))"
proof -
  have trunc: "length (extracted_sections (assemble sorted_list)) = min 7 (length sorted_list)"
    "length (subsection_analysis (assemble sorted_list)) = min 7 (length sorted_list)"
    by (simp_all add: assemble_sections assemble_analysis length_py_enumerate min.commute)
  have main: "chat_with_pdfs ucd ext stores request = Inr response \<longrightarrow>
     length (extracted_sections response) = length (subsection_analysis response) \<and>
     1 \<le> length (extracted_sections response) \<and>
     length (extracted_sections response) \<le> 7 \<and>
     map es_importance_rank (extracted_sections response)
       = [1..int (length (extracted_sections response))] \<and>
     (\<exists>ranked. chat_sorted_results ucd ext stores request = Inr ranked \<and>
        length (extracted_sections response) = min 7 (length ranked) \<and>
        (\<forall>i < length (extracted_sections response).
           extracted_sections response ! i = to_section (int i + 1, ranked ! i) \<and>
           subsection_analysis response ! i = to_analysis (int i + 1, ranked ! i) \<and>
           es_document (extracted_sections response ! i)
             = sa_document (subsection_analysis response ! i) \<and>
           es_page_number (extracted_sections response ! i)
             = sa_page_number (subsection_analysis response ! i)))"
  proof
    assume "chat_with_pdfs ucd ext stores request = Inr response"
    then obtain ranked where r:
      "chat_sorted_results ucd ext stores request = Inr ranked" "response = assemble ranked"
      by (auto simp: chat_success)
    then have ne: "ranked \<noteq> []"
      using chat_sorted_success by blast
    let ?es = "extracted_sections response" and ?sa = "subsection_analysis response"
    have len: "length ?es = min 7 (length ranked)" "length ?sa = min 7 (length ranked)"
      by (simp_all add: r(2) assemble_sections assemble_analysis length_py_enumerate
          min.commute)
    from ne have pos: "1 \<le> length ?es"
      unfolding len by (cases ranked) auto
    have ranks: "map es_importance_rank ?es = [1..int (length ?es)]"
      unfolding r(2) by (rule assemble_ranks)
    have at: "?es ! i = to_section (int i + 1, ranked ! i) \<and>
          ?sa ! i = to_analysis (int i + 1, ranked ! i) \<and>
          es_document (?es ! i) = sa_document (?sa ! i) \<and>
          es_page_number (?es ! i) = sa_page_number (?sa ! i)"
      if "i < length ?es" for i
    proof -
      from that have i: "i < length (take 7 ranked)"
        by (simp add: len min.commute)
      then have e: "py_enumerate (take 7 ranked) 1 ! i = (int i + 1, ranked ! i)"
        by (simp add: nth_py_enumerate)
      from i have "?es ! i = to_section (int i + 1, ranked ! i)"
        "?sa ! i = to_analysis (int i + 1, ranked ! i)"
        by (simp_all add: r(2) assemble_sections assemble_analysis length_py_enumerate e)
      then show ?thesis
        by (simp add: to_section_def to_analysis_def)
    qed
    from len have eq: "length ?es = length ?sa" and le: "length ?es \<le> 7"
      by simp_all
    from r(1) len(1) at
    have ex: "\<exists>ranked. chat_sorted_results ucd ext stores request = Inr ranked \<and>
          length ?es = min 7 (length ranked) \<and>
          (\<forall>i < length ?es.
             ?es ! i = to_section (int i + 1, ranked ! i) \<and>
             ?sa ! i = to_analysis (int i + 1, ranked ! i) \<and>
             es_document (?es ! i) = sa_document (?sa ! i) \<and>
             es_page_number (?es ! i) = sa_page_number (?sa ! i))"
      by blast
    from eq pos le ranks ex
    show "length ?es = length ?sa \<and> 1 \<le> length ?es \<and> length ?es \<le> 7 \<and>
       map es_importance_rank ?es = [1..int (length ?es)] \<and>
       (\<exists>ranked. chat_sorted_results ucd ext stores request = Inr ranked \<and>
          length ?es = min 7 (length ranked) \<and>
          (\<forall>i < length ?es.
             ?es ! i = to_section (int i + 1, ranked ! i) \<and>
             ?sa ! i = to_analysis (int i + 1, ranked ! i) \<and>
             es_document (?es ! i) = sa_document (?sa ! i) \<and>
             es_page_number (?es ! i) = sa_page_number (?sa ! i)))"
      by blast
  qed
  from trunc main show ?thesis by blast
qed

theorem response_lists_aligned_witness:
  "chat_with_pdfs ex_unicode ex_scoring ex_stores ex_request = Inr ex_response \<and>
   length (extracted_sections ex_response) = 2 \<and>
   length (subsection_analysis ex_response) = 2 \<and>
   length (extracted_sections ex_response) \<le> 7 \<and>
   map es_importance_rank (extracted_sections ex_response) = [1, 2] \<and>
   map es_document (extracted_sections ex_response)
     = map sa_document (subsection_analysis ex_response) \<and>
   map es_page_number (extracted_sections ex_response)
     = map sa_page_number (subsection_analysis ex_response) \<and>
   length (extracted_sections (assemble (replicate 9 (scored ''Results'' ''a'' (9 / 10) ''b.pdf'' 4))))
     = 7"
proof -
  note t = response_lists_aligned [of "replicate 9 (scored ''Results'' ''a'' (9 / 10) ''b.pdf'' 4)"
      ex_unicode ex_scoring ex_stores ex_request ex_response]
  from t ex_chat
  have "length (extracted_sections ex_response) = length (subsection_analysis ex_response)"
    "length (extracted_sections ex_response) \<le> 7"
    by blast+
  moreover have "length (extracted_sections ex_response) = 2"
    "map es_importance_rank (extracted_sections ex_response) = [1, 2]"
    "map es_document (extracted_sections ex_response)
       = map sa_document (subsection_analysis ex_response)"
    "map es_page_number (extracted_sections ex_response)
       = map sa_page_number (subsection_analysis ex_response)"
    by (simp_all add: ex_response_def)
  moreover from t
  have "length (extracted_sections (assemble (replicate 9
      (scored ''Results'' ''a'' (9 / 10) ''b.pdf'' 4)))) = 7"
    by simp
  ultimately show ?thesis using ex_chat by simp
qed

subsection \<open>Deduplication\<close>

lemma map_of_fold_update:
  "map_of (fold (\<lambda>doc d. AList.update (page_content doc) doc d) docs d0) t =
     (if \<exists>doc \<in> set docs. page_content doc = t
      then Some (last (filter (\<lambda>doc. page_content doc = t) docs))
      else map_of d0 t)"
proof (induction docs rule: rev_induct)
  case Nil
  then show ?case by simp
next
  case (snoc x xs)
  then show ?case by (simp add: update_conv')
qed

lemma distinct_fold_update:
  "distinct (map fst d0) \<Longrightarrow>
     distinct (map fst (fold (\<lambda>doc d. AList.update (page_content doc) doc d) docs d0))"
  by (induction docs arbitrary: d0) (simp_all add: distinct_update)

lemma filter_key_distinct:
  "distinct (map fst al) \<Longrightarrow>
     filter (\<lambda>e. fst e = k) al = (case map_of al k of None \<Rightarrow> [] | Some v \<Rightarrow> [(k, v)])"
proof (induction al)
  case Nil
  then show ?case by simp
next
  case (Cons e al)
  show ?case
  proof (cases "fst e = k")
    case True
    with Cons.prems have "k \<notin> fst ` set al" by auto
    then have "filter (\<lambda>e. fst e = k) al = []"
      by (auto simp: filter_empty_conv)
    with True show ?thesis by (cases e) auto
  next
    case False
    with Cons show ?thesis by (cases e) auto
  qed
qed

lemma last_filter_satisfies:
  "filter P xs \<noteq> [] \<Longrightarrow> P (last (filter P xs)) \<and> last (filter P xs) \<in> set xs"
  using last_in_set [of "filter P xs"] by auto

text \<open>
  C6. The deduplicated pool holds no text twice; for every text of the merged pool it
  holds exactly one chunk, and that chunk is the last one of the merged pool with that
  text, whatever document it came from. Nothing else is in the deduplicated pool.
\<close>

theorem unique_docs_last_writer:
  "distinct (map page_content (unique_docs docs)) \<and>
   set (unique_docs docs) \<subseteq> set docs \<and>
   (\<forall>doc \<in> set docs.
      filter (\<lambda>d. page_content d = page_content doc) (unique_docs docs)
        = [last (filter (\<lambda>d. page_content d = page_content doc) docs)])"
proof -
  define al where "al = fold (\<lambda>doc d. AList.update (page_content doc) doc d) docs []"
  have u: "unique_docs docs = map snd al"
    by (simp add: unique_docs_def al_def)
  have dist: "distinct (map fst al)"
    unfolding al_def by (rule distinct_fold_update) simp
  have look: "map_of al t =
     (if \<exists>doc \<in> set docs. page_content doc = t
      then Some (last (filter (\<lambda>doc. page_content doc = t) docs)) else None)" for t
    unfolding al_def by (simp add: map_of_fold_update)
  have entry: "page_content v = k \<and> v \<in> set docs" if "(k, v) \<in> set al" for k v
  proof -
    from that dist have m: "map_of al k = Some v" by simp
    with look [of k] have ex: "\<exists>doc \<in> set docs. page_content doc = k"
      by (auto split: if_splits)
    with m look [of k] have v: "v = last (filter (\<lambda>doc. page_content doc = k) docs)"
      by simp
    from ex have "filter (\<lambda>doc. page_content doc = k) docs \<noteq> []"
      by (auto simp: filter_empty_conv)
    from last_filter_satisfies [OF this] v show ?thesis by simp
  qed
  have keys: "map page_content (map snd al) = map fst al"
    using entry by (auto intro!: map_cong [OF refl] simp: comp_def)
  have a: "distinct (map page_content (unique_docs docs))"
    unfolding u keys by (rule dist)
  have b: "set (unique_docs docs) \<subseteq> set docs"
    unfolding u using entry by auto
  have c: "filter (\<lambda>d. page_content d = page_content doc) (unique_docs docs)
        = [last (filter (\<lambda>d. page_content d = page_content doc) docs)]"
    if "doc \<in> set docs" for doc
  proof -
    have "filter (\<lambda>d. page_content d = page_content doc) (map snd al)
        = map snd (filter (\<lambda>e. fst e = page_content doc) al)"
      unfolding filter_map comp_def
      using entry by (auto intro!: arg_cong [where f = "map snd"] filter_cong)
    also have "\<dots> = map snd (case map_of al (page_content doc) of
        None \<Rightarrow> [] | Some v \<Rightarrow> [(page_content doc, v)])"
      by (simp only: filter_key_distinct [OF dist])
    also have "\<dots> = [last (filter (\<lambda>d. page_content d = page_content doc) docs)]"
      using that by (auto simp: look)
    finally show ?thesis by (simp only: u)
  qed
  from a b c show ?thesis by blast
qed

theorem unique_docs_last_writer_witness:
  "all_relevant_docs ex_stores (query ex_request) = Returns ex_pool \<and>
   mk_chunk ''alpha'' ''a.pdf'' 1 \<in> set ex_pool \<and>
   mk_chunk ''alpha'' ''b.pdf'' 3 \<in> set ex_pool \<and>
   filter (\<lambda>d. page_content d = lit ''alpha'') (unique_docs ex_pool)
     = [mk_chunk ''alpha'' ''b.pdf'' 3] \<and>
   distinct (map page_content (unique_docs ex_pool))"
proof -
  note t = unique_docs_last_writer [of ex_pool]
  have m: "mk_chunk ''alpha'' ''a.pdf'' 1 \<in> set ex_pool"
    "mk_chunk ''alpha'' ''b.pdf'' 3 \<in> set ex_pool"
    by (simp_all add: ex_pool_def)
  have l: "last (filter (\<lambda>d. page_content d = page_content (mk_chunk ''alpha'' ''a.pdf'' 1))
      ex_pool) = mk_chunk ''alpha'' ''b.pdf'' 3"
    by (simp add: ex_pool_def mk_chunk_def)
  from t m(1) have "filter (\<lambda>d. page_content d = page_content (mk_chunk ''alpha'' ''a.pdf'' 1))
      (unique_docs ex_pool)
     = [last (filter (\<lambda>d. page_content d = page_content (mk_chunk ''alpha'' ''a.pdf'' 1))
      ex_pool)]"
    by blast
  then have f: "filter (\<lambda>d. page_content d = lit ''alpha'') (unique_docs ex_pool)
     = [mk_chunk ''alpha'' ''b.pdf'' 3]"
    unfolding l by (simp add: mk_chunk_def)
  from t ex_relevant m f show ?thesis by blast
qed

subsection \<open>Failures of the scoring capability\<close>

lemma field_after_update:
  "key \<noteq> lit ''document'' \<Longrightarrow> key \<noteq> lit ''page_number'' \<Longrightarrow>
     field (AList.update (lit ''page_number'') pg (AList.update (lit ''document'') doc d)) key validate
       = field d key validate"
  by (simp add: field_def update_conv')

lemma process_chunk_object:
  assumes "chain_ainvoke ext (prompt_vars chunk q pers hs) = Returns (JObject d)"
  shows "process_chunk ext chunk q pers hs =
     ProcessedChunk_init ext
       (AList.update (lit ''page_number'')
          (JInt ((case metadata_page chunk of None \<Rightarrow> 0 | Some p \<Rightarrow> p) + 1))
          (AList.update (lit ''document'')
             (JString (case metadata_source chunk of None \<Rightarrow> (lit ''Unknown'') | Some s \<Rightarrow> s)) d))"
  using assms by (simp add: process_chunk_def Let_def)

lemma init_needs_fields:
  assumes "ProcessedChunk_init ext d = Some res"
  shows "field d (lit ''section_title'') (validate_str ext) = Some (pc_section_title res)"
    and "field d (lit ''refined_text'') (validate_str ext) = Some (pc_refined_text res)"
    and "field d (lit ''relevance_score'') (validate_float ext) = Some (pc_relevance_score res)"
    and "0 \<le> pc_relevance_score res" and "pc_relevance_score res \<le> 1"
  using assms by (auto simp: ProcessedChunk_init_def split: option.splits if_splits)

lemma process_chunk_some:
  assumes "process_chunk ext chunk q pers hs = Some res"
  shows "\<exists>d. chain_ainvoke ext (prompt_vars chunk q pers hs) = Returns (JObject d) \<and>
     field d (lit ''section_title'') (validate_str ext) = Some (pc_section_title res) \<and>
     field d (lit ''refined_text'') (validate_str ext) = Some (pc_refined_text res) \<and>
     field d (lit ''relevance_score'') (validate_float ext) = Some (pc_relevance_score res) \<and>
     0 \<le> pc_relevance_score res \<and> pc_relevance_score res \<le> 1"
proof -
  from assms obtain d where d:
    "chain_ainvoke ext (prompt_vars chunk q pers hs) = Returns (JObject d)"
    by (auto simp: process_chunk_def split: attempt.splits json.splits)
  from assms have "ProcessedChunk_init ext
       (AList.update (lit ''page_number'')
          (JInt ((case metadata_page chunk of None \<Rightarrow> 0 | Some p \<Rightarrow> p) + 1))
          (AList.update (lit ''document'')
             (JString (case metadata_source chunk of None \<Rightarrow> (lit ''Unknown'') | Some s \<Rightarrow> s)) d))
      = Some res"
    by (simp only: process_chunk_object [OF d])
  from init_needs_fields [OF this] d show ?thesis
    by (simp add: field_after_update)
qed

lemma valid_results_append:
  "valid_results (ps @ ps') = valid_results ps @ valid_results ps'"
  by (induction ps rule: valid_results.induct) auto

text \<open>
  C7. Scoring one chunk gives \<open>None\<close> when the chain raises, when it returns a value that
  is not an object, when one of the three fields it must supply is missing or rejected
  by its validator, and when the validated relevance score is below 0 or above 1. A
  chunk that is scored carries exactly the validated score of the response, which lies
  in the range: no score is clamped. Each task is scored by itself, so the results of
  the other tasks are what they would be without the failing one, and a failed result
  leaves the filtered and sorted output as if its chunk had not been there.
\<close>

theorem scoring_failure_isolated:
  "(chain_ainvoke ext (prompt_vars chunk q pers hs) = Raises \<longrightarrow>
      process_chunk ext chunk q pers hs = None) \<and>
   (chain_ainvoke ext (prompt_vars chunk q pers hs) = Returns j \<and> (\<forall>d. j \<noteq> JObject d) \<longrightarrow>
      process_chunk ext chunk q pers hs = None) \<and>
   (chain_ainvoke ext (prompt_vars chunk q pers hs) = Returns (JObject d) \<and>
    (field d (lit ''section_title'') (validate_str ext) = None \<or>
     field d (lit ''refined_text'') (validate_str ext) = None \<or>
     field d (lit ''relevance_score'') (validate_float ext) = None) \<longrightarrow>
      process_chunk ext chunk q pers hs = None) \<and>
   (chain_ainvoke ext (prompt_vars chunk q pers hs) = Returns (JObject d) \<and>
    field d (lit ''relevance_score'') (validate_float ext) = Some score \<and>
    (score < 0 \<or> 1 < score) \<longrightarrow>
      process_chunk ext chunk q pers hs = None) \<and>
   (process_chunk ext chunk q pers hs = Some res \<longrightarrow>
      0 \<le> pc_relevance_score res \<and> pc_relevance_score res \<le> 1 \<and>
      (\<exists>d. chain_ainvoke ext (prompt_vars chunk q pers hs) = Returns (JObject d) \<and>
         field d (lit ''relevance_score'') (validate_float ext) = Some (pc_relevance_score res))) \<and>
   processed_results ext request (before @ (chunk, hs) # after)
     = processed_results ext request before
       @ process_chunk ext chunk (query request) (persona request) hs
       # processed_results ext request after \<and>
   valid_results (ps @ None # ps') = valid_results (ps @ ps') \<and>
   filter_and_sort ucd (ps @ None # ps') = filter_and_sort ucd (ps @ ps')"
proof -
  let ?call = "chain_ainvoke ext (prompt_vars chunk q pers hs)"
  let ?out = "process_chunk ext chunk q pers hs"
  have a: "?call = Raises \<longrightarrow> ?out = None"
    by (simp add: process_chunk_def)
  have b: "?call = Returns j \<and> (\<forall>d. j \<noteq> JObject d) \<longrightarrow> ?out = None"
    by (cases j) (auto simp: process_chunk_def)
  have c: "?call = Returns (JObject d) \<and>
    (field d (lit ''section_title'') (validate_str ext) = None \<or>
     field d (lit ''refined_text'') (validate_str ext) = None \<or>
     field d (lit ''relevance_score'') (validate_float ext) = None) \<longrightarrow> ?out = None"
  proof (rule ccontr)
    assume "\<not> ?thesis"
    then obtain res where call: "?call = Returns (JObject d)"
      and miss: "field d (lit ''section_title'') (validate_str ext) = None \<or>
        field d (lit ''refined_text'') (validate_str ext) = None \<or>
        field d (lit ''relevance_score'') (validate_float ext) = None"
      and some: "?out = Some res"
      by auto
    from process_chunk_some [OF some] call miss show False by auto
  qed
  have d: "?call = Returns (JObject d) \<and>
    field d (lit ''relevance_score'') (validate_float ext) = Some score \<and>
    (score < 0 \<or> 1 < score) \<longrightarrow> ?out = None"
  proof (rule ccontr)
    assume "\<not> ?thesis"
    then obtain res where call: "?call = Returns (JObject d)"
      and sc: "field d (lit ''relevance_score'') (validate_float ext) = Some score"
      and range: "score < 0 \<or> 1 < score"
      and some: "?out = Some res"
      by auto
    from process_chunk_some [OF some] call sc range show False by auto
  qed
  have e: "?out = Some res \<longrightarrow>
      0 \<le> pc_relevance_score res \<and> pc_relevance_score res \<le> 1 \<and>
      (\<exists>d. ?call = Returns (JObject d) \<and>
         field d (lit ''relevance_score'') (validate_float ext) = Some (pc_relevance_score res))"
    using process_chunk_some [of ext chunk q pers hs res] by blast
  have f: "processed_results ext request (before @ (chunk, hs) # after)
     = processed_results ext request before
       @ process_chunk ext chunk (query request) (persona request) hs
       # processed_results ext request after"
    by (simp add: processed_results_def)
  have g: "valid_results (ps @ None # ps') = valid_results (ps @ ps')"
    by (simp add: valid_results_append)
  then have h: "filter_and_sort ucd (ps @ None # ps') = filter_and_sort ucd (ps @ ps')"
    by (simp add: filter_and_sort_def)
  from a b c d e f g h show ?thesis by blast
qed

theorem scoring_failure_isolated_witness:
  "chain_ainvoke ex_scoring (prompt_vars (mk_chunk ''beta'' ''a.pdf'' 2) (lit ''q'') None []) = Raises \<and>
   process_chunk ex_scoring (mk_chunk ''beta'' ''a.pdf'' 2) (lit ''q'') None [] = None \<and>
   chain_ainvoke ex_scoring (prompt_vars (mk_chunk ''eps'' ''c.pdf'' 0) (lit ''q'') None [])
     = Returns (JArray []) \<and>
   process_chunk ex_scoring (mk_chunk ''eps'' ''c.pdf'' 0) (lit ''q'') None [] = None \<and>
   chain_ainvoke ex_scoring (prompt_vars (mk_chunk ''theta'' ''a.pdf'' 0) (lit ''q'') None [])
     = Returns (JObject [((lit ''section_title''), JString (lit ''Results'')),
                         ((lit ''relevance_score''), JString (lit ''high''))]) \<and>
   process_chunk ex_scoring (mk_chunk ''theta'' ''a.pdf'' 0) (lit ''q'') None [] = None \<and>
   chain_ainvoke ex_scoring (prompt_vars (mk_chunk ''omega'' ''a.pdf'' 0) (lit ''q'') None [])
     = answer ''Results'' ''o'' (3 / 2) \<and>
   process_chunk ex_scoring (mk_chunk ''omega'' ''a.pdf'' 0) (lit ''q'') None [] = None \<and>
   process_chunk ex_scoring (mk_chunk ''alpha'' ''b.pdf'' 3) (lit ''q'') None []
     = Some (scored ''Results'' ''a'' (9 / 10) ''b.pdf'' 4) \<and>
   0 \<le> pc_relevance_score (scored ''Results'' ''a'' (9 / 10) ''b.pdf'' 4) \<and>
   pc_relevance_score (scored ''Results'' ''a'' (9 / 10) ''b.pdf'' 4) \<le> 1 \<and>
   processed_results ex_scoring ex_request ex_tasks ! 2 = None \<and>
   processed_results ex_scoring ex_request ex_tasks
     = processed_results ex_scoring ex_request (take 2 ex_tasks)
       @ None # processed_results ex_scoring ex_request (drop 3 ex_tasks) \<and>
   filter_and_sort ex_unicode (processed_results ex_scoring ex_request ex_tasks)
     = filter_and_sort ex_unicode (processed_results ex_scoring ex_request (take 2 ex_tasks)
         @ processed_results ex_scoring ex_request (drop 3 ex_tasks)) \<and>
   filter_and_sort ex_unicode (processed_results ex_scoring ex_request ex_tasks) = ex_ranked"
proof -
  let ?beta = "mk_chunk ''beta'' ''a.pdf'' 2" and ?eps = "mk_chunk ''eps'' ''c.pdf'' 0"
  let ?theta = "mk_chunk ''theta'' ''a.pdf'' 0" and ?omega = "mk_chunk ''omega'' ''a.pdf'' 0"
  let ?alpha = "mk_chunk ''alpha'' ''b.pdf'' 3"
  let ?dt = "[((lit ''section_title''), JString (lit ''Results'')), ((lit ''relevance_score''), JString (lit ''high''))]"
  let ?do = "[((lit ''section_title''), JString (lit ''Results'')), ((lit ''refined_text''), JString (lit ''o'')),
     ((lit ''relevance_score''), JFloat (3 / 2))]"
  have c1: "chain_ainvoke ex_scoring (prompt_vars ?beta (lit ''q'') None []) = Raises"
    by (simp add: ex_scoring_def ex_chain_def prompt_vars_def mk_chunk_def)
  from scoring_failure_isolated [of ex_scoring ?beta "lit ''q''" None "[]"] c1
  have r1: "process_chunk ex_scoring ?beta (lit ''q'') None [] = None"
    by blast
  have c2: "chain_ainvoke ex_scoring (prompt_vars ?eps (lit ''q'') None []) = Returns (JArray [])"
    by (simp add: ex_scoring_def ex_chain_def prompt_vars_def mk_chunk_def)
  have "\<forall>d. JArray [] \<noteq> JObject d"
    by simp
  with scoring_failure_isolated [of ex_scoring ?eps "lit ''q''" None "[]" "JArray []"] c2
  have r2: "process_chunk ex_scoring ?eps (lit ''q'') None [] = None"
    by blast
  have c3: "chain_ainvoke ex_scoring (prompt_vars ?theta (lit ''q'') None []) = Returns (JObject ?dt)"
    by (simp add: ex_scoring_def ex_chain_def prompt_vars_def mk_chunk_def)
  have "field ?dt (lit ''refined_text'') (validate_str ex_scoring) = None"
    by (simp add: field_def)
  with scoring_failure_isolated [of ex_scoring ?theta "lit ''q''" None "[]" _ ?dt] c3
  have r3: "process_chunk ex_scoring ?theta (lit ''q'') None [] = None"
    by blast
  have c4: "chain_ainvoke ex_scoring (prompt_vars ?omega (lit ''q'') None [])
      = answer ''Results'' ''o'' (3 / 2)"
    by (simp add: ex_scoring_def ex_chain_def prompt_vars_def mk_chunk_def)
  then have c4': "chain_ainvoke ex_scoring (prompt_vars ?omega (lit ''q'') None []) = Returns (JObject ?do)"
    by (simp add: answer_def)
  have "field ?do (lit ''relevance_score'') (validate_float ex_scoring) = Some (3 / 2)"
    "(3 / 2 :: real) < 0 \<or> 1 < (3 / 2 :: real)"
    by (simp_all add: field_def ex_scoring_def strict_float_def)
  with scoring_failure_isolated [of ex_scoring ?omega "lit ''q''" None "[]" _ ?do "3 / 2"] c4'
  have r4: "process_chunk ex_scoring ?omega (lit ''q'') None [] = None"
    by blast
  have r5: "process_chunk ex_scoring ?alpha (lit ''q'') None []
      = Some (scored ''Results'' ''a'' (9 / 10) ''b.pdf'' 4)"
    by (simp add: process_chunk_def prompt_vars_def ex_scoring_def ex_chain_def answer_def
        mk_chunk_def ProcessedChunk_init_def field_def strict_str_def strict_float_def
        strict_int_def scored_def)
  with scoring_failure_isolated [of ex_scoring ?alpha "lit ''q''" None "[]" _ _ _
      "scored ''Results'' ''a'' (9 / 10) ''b.pdf'' 4"]
  have range: "0 \<le> pc_relevance_score (scored ''Results'' ''a'' (9 / 10) ''b.pdf'' 4)"
    "pc_relevance_score (scored ''Results'' ''a'' (9 / 10) ''b.pdf'' 4) \<le> 1"
    by blast+
  have third: "processed_results ex_scoring ex_request ex_tasks ! 2 = None"
    by (simp add: ex_processed_results ex_processed_def)
  have split: "ex_tasks = take 2 ex_tasks @ (?beta, [lit ''Results'', lit ''Methods'']) # drop 3 ex_tasks"
    by (simp add: ex_tasks_def)
  have beta: "process_chunk ex_scoring ?beta (query ex_request) (persona ex_request)
      [lit ''Results'', lit ''Methods''] = None"
    by (simp add: process_chunk_def ex_scoring_def ex_chain_def prompt_vars_def mk_chunk_def)
  from scoring_failure_isolated [of ex_scoring ?beta _ _ "[lit ''Results'', lit ''Methods'']" _ _ _ _
      ex_request "take 2 ex_tasks" "drop 3 ex_tasks"]
  have "processed_results ex_scoring ex_request
        (take 2 ex_tasks @ (?beta, [lit ''Results'', lit ''Methods'']) # drop 3 ex_tasks)
     = processed_results ex_scoring ex_request (take 2 ex_tasks)
       @ process_chunk ex_scoring ?beta (query ex_request) (persona ex_request)
           [lit ''Results'', lit ''Methods'']
       # processed_results ex_scoring ex_request (drop 3 ex_tasks)"
    by blast
  then have iso: "processed_results ex_scoring ex_request ex_tasks
     = processed_results ex_scoring ex_request (take 2 ex_tasks)
       @ None # processed_results ex_scoring ex_request (drop 3 ex_tasks)"
    unfolding beta using split by simp
  from scoring_failure_isolated [where ps = "processed_results ex_scoring ex_request (take 2 ex_tasks)"
      and ps' = "processed_results ex_scoring ex_request (drop 3 ex_tasks)"]
  have "filter_and_sort ex_unicode (processed_results ex_scoring ex_request (take 2 ex_tasks)
         @ None # processed_results ex_scoring ex_request (drop 3 ex_tasks))
     = filter_and_sort ex_unicode (processed_results ex_scoring ex_request (take 2 ex_tasks)
         @ processed_results ex_scoring ex_request (drop 3 ex_tasks))"
    by blast
  then have same: "filter_and_sort ex_unicode (processed_results ex_scoring ex_request ex_tasks)
     = filter_and_sort ex_unicode (processed_results ex_scoring ex_request (take 2 ex_tasks)
         @ processed_results ex_scoring ex_request (drop 3 ex_tasks))"
    by (simp only: iso [symmetric])
  have out: "filter_and_sort ex_unicode (processed_results ex_scoring ex_request ex_tasks) = ex_ranked"
    by (simp only: ex_processed_results ex_filter_and_sort)
  from c1 r1 c2 r2 c3 r3 c4 r4 r5 range third iso same out show ?thesis
    by blast
qed

subsection \<open>Chunks without a registered source\<close>

lemma getitem_present:
  "key \<in> fst ` set stores \<Longrightarrow> \<exists>data. getitem stores key = Inr data \<and> map_of stores key = Some data"
proof -
  assume "key \<in> fst ` set stores"
  then have "map_of stores key \<noteq> None"
    by (simp add: map_of_eq_None_iff)
  then show ?thesis
    by (auto simp: getitem_def)
qed

lemma processing_tasks_total:
  "\<exists>tasks. processing_tasks stores docs = Inr tasks \<and>
     map fst tasks = filter (registered stores) docs \<and>
     (\<forall>task \<in> set tasks. \<exists>s data. metadata_source (fst task) = Some s \<and>
        map_of stores s = Some data \<and> snd task = headings data)"
proof (induction docs)
  case Nil
  then show ?case by simp
next
  case (Cons doc docs)
  then obtain tasks where t: "processing_tasks stores docs = Inr tasks"
    "map fst tasks = filter (registered stores) docs"
    "\<forall>task \<in> set tasks. \<exists>s data. metadata_source (fst task) = Some s \<and>
        map_of stores s = Some data \<and> snd task = headings data"
    by blast
  show ?case
  proof (cases "registered stores doc")
    case False
    then have "processing_tasks stores (doc # docs) = processing_tasks stores docs"
      by (auto simp: registered_def split: option.splits)
    with t False show ?thesis by simp
  next
    case True
    then obtain s where s: "metadata_source doc = Some s" "s \<in> fst ` set stores"
      by (auto simp: registered_def split: option.splits)
    from getitem_present [OF s(2)] obtain data where d:
      "getitem stores s = Inr data" "map_of stores s = Some data"
      by blast
    from s d t(1) have "processing_tasks stores (doc # docs) = Inr ((doc, headings data) # tasks)"
      by simp
    with t True s d show ?thesis by auto
  qed
qed

lemma processing_tasks_skip:
  "\<not> registered stores doc \<Longrightarrow>
     processing_tasks stores (before @ doc # after) = processing_tasks stores (before @ after)"
proof (induction before)
  case Nil
  then show ?case by (auto simp: registered_def split: option.splits)
next
  case (Cons b before)
  then have eq: "processing_tasks stores (before @ doc # after)
      = processing_tasks stores (before @ after)"
    by simp
  show ?case
    unfolding append_Cons processing_tasks.simps eq by (rule refl)
qed

text \<open>
  C10. The task loop never raises \<open>KeyError\<close>: it returns the tasks, which are exactly
  the chunks of the pool whose \<open>source\<close> is present and is a key of the registry, in pool
  order, each with the headings stored under its source. A chunk whose source is missing
  or not registered is skipped: the loop returns what it returns for the pool without
  that chunk, and the whole request never fails with \<open>KeyError\<close>.
\<close>

theorem unregistered_chunks_skipped:
  "(\<exists>tasks. processing_tasks stores docs = Inr tasks \<and>
      map fst tasks = filter (registered stores) docs \<and>
      (\<forall>task \<in> set tasks. \<exists>s data. metadata_source (fst task) = Some s \<and>
         map_of stores s = Some data \<and> snd task = headings data)) \<and>
   (\<not> registered stores doc \<longrightarrow>
      processing_tasks stores (before @ doc # after) = processing_tasks stores (before @ after)) \<and>
   chat_sorted_results ucd ext stores request \<noteq> Inl (KeyError k) \<and>
   chat_with_pdfs ucd ext stores request \<noteq> Inl (KeyError k)"
proof -
  have a: "chat_sorted_results ucd ext stores request \<noteq> Inl (KeyError k)"
  proof (cases "all_relevant_docs stores (query request)")
    case Raises
    then show ?thesis
      by (simp add: chat_sorted_results_def no_pdfs_def)
  next
    case (Returns relevant)
    obtain tasks where "processing_tasks stores (unique_docs relevant) = Inr tasks"
      using processing_tasks_total by blast
    with Returns show ?thesis
      by (simp add: chat_sorted_results_def Let_def no_pdfs_def no_relevant_docs_def
          none_after_filtering_def)
  qed
  then have b: "chat_with_pdfs ucd ext stores request \<noteq> Inl (KeyError k)"
    by (auto simp: chat_with_pdfs_def split: sum.splits)
  from processing_tasks_total [of stores docs] processing_tasks_skip [of stores doc before after]
    a b show ?thesis
    by blast
qed

theorem unregistered_chunks_skipped_witness:
  "\<not> registered ex_stores (mk_chunk ''eps'' ''c.pdf'' 0) \<and>
   \<not> registered ex_stores \<lparr>page_content = lit ''nu'', metadata_source = None, metadata_page = None\<rparr> \<and>
   processing_tasks ex_stores
     [mk_chunk ''zeta'' ''a.pdf'' 0, mk_chunk ''eps'' ''c.pdf'' 0,
      \<lparr>page_content = lit ''nu'', metadata_source = None, metadata_page = None\<rparr>]
     = Inr [(mk_chunk ''zeta'' ''a.pdf'' 0, [lit ''Results'', lit ''Methods''])] \<and>
   all_relevant_docs ex_stores (query ex_request) = Returns ex_pool \<and>
   processing_tasks ex_stores (unique_docs ex_pool) = Inr ex_tasks \<and>
   map fst ex_tasks = filter (registered ex_stores) (unique_docs ex_pool) \<and>
   chat_with_pdfs ex_unicode ex_scoring ex_stores ex_request = Inr ex_response"
proof -
  let ?nu = "\<lparr>page_content = lit ''nu'', metadata_source = None, metadata_page = None\<rparr>"
  have n1: "\<not> registered ex_stores (mk_chunk ''eps'' ''c.pdf'' 0)"
    by (simp add: registered_def ex_stores_def mk_chunk_def)
  have n2: "\<not> registered ex_stores ?nu"
    by (simp add: registered_def)
  have z: "processing_tasks ex_stores [mk_chunk ''zeta'' ''a.pdf'' 0]
     = Inr [(mk_chunk ''zeta'' ''a.pdf'' 0, [lit ''Results'', lit ''Methods''])]"
    by (simp add: mk_chunk_def ex_stores_def getitem_def)
  from unregistered_chunks_skipped [of ex_stores _ ?nu
      "[mk_chunk ''zeta'' ''a.pdf'' 0, mk_chunk ''eps'' ''c.pdf'' 0]" "[]"] n2
  have "processing_tasks ex_stores
     ([mk_chunk ''zeta'' ''a.pdf'' 0, mk_chunk ''eps'' ''c.pdf'' 0] @ ?nu # [])
     = processing_tasks ex_stores ([mk_chunk ''zeta'' ''a.pdf'' 0, mk_chunk ''eps'' ''c.pdf'' 0] @ [])"
    by blast
  moreover
  from unregistered_chunks_skipped [of ex_stores _ "mk_chunk ''eps'' ''c.pdf'' 0"
      "[mk_chunk ''zeta'' ''a.pdf'' 0]" "[]"] n1
  have "processing_tasks ex_stores
     ([mk_chunk ''zeta'' ''a.pdf'' 0] @ mk_chunk ''eps'' ''c.pdf'' 0 # [])
     = processing_tasks ex_stores ([mk_chunk ''zeta'' ''a.pdf'' 0] @ [])"
    by blast
  ultimately have s: "processing_tasks ex_stores
     [mk_chunk ''zeta'' ''a.pdf'' 0, mk_chunk ''eps'' ''c.pdf'' 0, ?nu]
     = Inr [(mk_chunk ''zeta'' ''a.pdf'' 0, [lit ''Results'', lit ''Methods''])]"
    using z by simp
  from unregistered_chunks_skipped [of ex_stores "unique_docs ex_pool"]
  obtain tasks where t:
    "processing_tasks ex_stores (unique_docs ex_pool) = Inr tasks"
    "map fst tasks = filter (registered ex_stores) (unique_docs ex_pool)"
    by blast
  from t(1) have "tasks = ex_tasks"
    by (simp add: ex_processing_tasks)
  with t(2) have m: "map fst ex_tasks = filter (registered ex_stores) (unique_docs ex_pool)"
    by simp
  from n1 n2 s ex_relevant ex_processing_tasks m ex_chat show ?thesis by blast
qed

subsection \<open>The failures of a query\<close>

lemma gather_raises: "gather calls = Raises \<longleftrightarrow> Raises \<in> set calls"
  by (induction calls rule: gather.induct) (auto split: attempt.splits)

lemma all_relevant_docs_raises:
  "all_relevant_docs stores q = Raises \<longleftrightarrow>
     (\<exists>data \<in> snd ` set stores. vector_store data 5 q = Raises)"
proof -
  have "all_relevant_docs stores q = Raises \<longleftrightarrow>
      gather (map (\<lambda>(fname, data). vector_store data 5 q) stores) = Raises"
    by (simp add: all_relevant_docs_def split: attempt.splits)
  also have "\<dots> \<longleftrightarrow> Raises \<in> set (map (\<lambda>(fname, data). vector_store data 5 q) stores)"
    by (rule gather_raises)
  also have "\<dots> \<longleftrightarrow> (\<exists>data \<in> snd ` set stores. vector_store data 5 q = Raises)"
    by (force simp: image_iff)
  finally show ?thesis .
qed

lemma failures_distinct:
  "no_pdfs \<noteq> no_relevant_docs" "no_pdfs \<noteq> none_after_filtering"
  "no_relevant_docs \<noteq> none_after_filtering"
  "no_pdfs \<noteq> Uncaught" "no_relevant_docs \<noteq> Uncaught" "none_after_filtering \<noteq> Uncaught"
  by (simp_all add: no_pdfs_def no_relevant_docs_def none_after_filtering_def)

lemma filter_and_sort_empty:
  "filter_and_sort ucd processed = [] \<longleftrightarrow>
     filtered_results ucd (valid_results processed) = []"
proof -
  have "length (filter_and_sort ucd processed)
      = length (filtered_results ucd (valid_results processed))"
    by (simp add: filter_and_sort_def sorted_results_def)
  then show ?thesis by (metis length_0_conv)
qed

lemma chat_sorted_cases:
  assumes "all_relevant_docs stores (query request) = Returns relevant"
    and "processing_tasks stores (unique_docs relevant) = Inr tasks"
  shows "chat_sorted_results ucd ext stores request =
     (if stores = [] then Inl no_pdfs
      else if relevant = [] then Inl no_relevant_docs
      else if filtered_results ucd (valid_results (processed_results ext request tasks)) = []
        then Inl none_after_filtering
      else Inr (filter_and_sort ucd (processed_results ext request tasks)))"
  using assms by (simp add: chat_sorted_results_def Let_def filter_and_sort_empty)

lemma chat_sorted_raises:
  assumes "all_relevant_docs stores (query request) = Raises"
  shows "chat_sorted_results ucd ext stores request =
     (if stores = [] then Inl no_pdfs else Inl Uncaught)"
  using assms by (simp add: chat_sorted_results_def)

lemma ex_silent_chat:
  "chat_with_pdfs ex_unicode ex_scoring ex_silent ex_request = Inl no_relevant_docs"
  by (simp add: chat_with_pdfs_def chat_sorted_results_def all_relevant_docs_def ex_silent_def)

lemma ex_raising_chat:
  "chat_with_pdfs ex_unicode ex_scoring ex_raising ex_request = Inl Uncaught"
  by (simp add: chat_with_pdfs_def chat_sorted_results_def all_relevant_docs_def ex_raising_def)

lemma ex_intro_relevant:
  "all_relevant_docs ex_intro (query ex_request) = Returns [mk_chunk ''delta'' ''b.pdf'' 0]"
  by (simp add: all_relevant_docs_def ex_intro_def)

lemma ex_intro_tasks:
  "processing_tasks ex_intro (unique_docs [mk_chunk ''delta'' ''b.pdf'' 0])
     = Inr [(mk_chunk ''delta'' ''b.pdf'' 0, [lit ''Introduction''])]"
  by (simp add: ex_intro_def unique_docs_def mk_chunk_def getitem_def)

lemma ex_intro_processed:
  "processed_results ex_scoring ex_request
       [(mk_chunk ''delta'' ''b.pdf'' 0, [lit ''Introduction''])]
     = [Some (scored '' Introduction'' ''d'' (95 / 100) ''b.pdf'' 1)]"
  by (simp add: processed_results_def ex_request_def scored_def
      process_chunk_def prompt_vars_def ex_scoring_def ex_chain_def answer_def mk_chunk_def
      ProcessedChunk_init_def field_def strict_str_def strict_float_def strict_int_def)

lemma ex_intro_filtered:
  "filtered_results ex_unicode
       (valid_results [Some (scored '' Introduction'' ''d'' (95 / 100) ''b.pdf'' 1)])
     = []"
  by (simp add: filtered_results_def passes_filter_def scored_def ex_titles STOP_TITLES_def)

lemma ex_intro_chat:
  "chat_with_pdfs ex_unicode ex_scoring ex_intro ex_request = Inl none_after_filtering"
proof -
  have "ex_intro \<noteq> []" "[mk_chunk ''delta'' ''b.pdf'' 0] \<noteq> []"
    by (simp_all add: ex_intro_def)
  moreover have "filtered_results ex_unicode (valid_results (processed_results ex_scoring
      ex_request [(mk_chunk ''delta'' ''b.pdf'' 0, [lit ''Introduction''])])) = []"
    by (simp only: ex_intro_processed ex_intro_filtered)
  ultimately have "chat_sorted_results ex_unicode ex_scoring ex_intro ex_request
      = Inl none_after_filtering"
    by (simp add: chat_sorted_cases [OF ex_intro_relevant ex_intro_tasks])
  then show ?thesis
    by (simp add: chat_with_pdfs_def)
qed

text \<open>
  C1 as the program has it. A query whose lookups all return fails in exactly three
  ways: with \<open>no_pdfs\<close> when the registry is empty, with \<open>no_relevant_docs\<close> when the registry
  is not empty and the merged pool is, and with \<open>none_after_filtering\<close> when the pool is
  not empty and no scored chunk is left after filtering. The three errors differ in their
  detail message. The first has status code 400; the other two both have status code
  404. A lookup that raises is not caught: the request then fails with that exception,
  which is none of the three.
\<close>

theorem three_failures:
  "(chat_with_pdfs ucd ext stores request = Inl no_pdfs \<longleftrightarrow> stores = []) \<and>
   (chat_with_pdfs ucd ext stores request = Inl no_relevant_docs \<longleftrightarrow>
      stores \<noteq> [] \<and> all_relevant_docs stores (query request) = Returns []) \<and>
   (chat_with_pdfs ucd ext stores request = Inl none_after_filtering \<longleftrightarrow>
      stores \<noteq> [] \<and>
      (\<exists>relevant tasks.
         all_relevant_docs stores (query request) = Returns relevant \<and> relevant \<noteq> [] \<and>
         processing_tasks stores (unique_docs relevant) = Inr tasks \<and>
         filtered_results ucd (valid_results (processed_results ext request tasks)) = [])) \<and>
   (chat_with_pdfs ucd ext stores request = Inl Uncaught \<longleftrightarrow>
      stores \<noteq> [] \<and> all_relevant_docs stores (query request) = Raises) \<and>
   (all_relevant_docs stores (query request) = Raises \<longleftrightarrow>
      (\<exists>data \<in> snd ` set stores. vector_store data 5 (query request) = Raises)) \<and>
   (chat_with_pdfs ucd ext stores request = Inl e \<longrightarrow>
      e = no_pdfs \<or> e = no_relevant_docs \<or> e = none_after_filtering \<or> e = Uncaught) \<and>
   distinct [Uncaught, no_pdfs, no_relevant_docs, none_after_filtering] \<and>
   distinct [detail no_pdfs, detail no_relevant_docs, detail none_after_filtering] \<and>
   status_code no_pdfs = 400 \<and>
   status_code no_relevant_docs = 404 \<and>
   status_code none_after_filtering = 404"
proof -
  let ?chat = "chat_with_pdfs ucd ext stores request"
  let ?lookup = "all_relevant_docs stores (query request)"
  have r: "?lookup = Raises \<longleftrightarrow>
      (\<exists>data \<in> snd ` set stores. vector_store data 5 (query request) = Raises)"
    by (rule all_relevant_docs_raises)
  have f: "distinct [Uncaught, no_pdfs, no_relevant_docs, none_after_filtering]"
    "distinct [detail no_pdfs, detail no_relevant_docs, detail none_after_filtering]"
    "status_code no_pdfs = 400" "status_code no_relevant_docs = 404"
    "status_code none_after_filtering = 404"
    by (simp_all add: no_pdfs_def no_relevant_docs_def none_after_filtering_def)
  have main: "(?chat = Inl no_pdfs \<longleftrightarrow> stores = []) \<and>
   (?chat = Inl no_relevant_docs \<longleftrightarrow> stores \<noteq> [] \<and> ?lookup = Returns []) \<and>
   (?chat = Inl none_after_filtering \<longleftrightarrow>
      stores \<noteq> [] \<and>
      (\<exists>relevant tasks. ?lookup = Returns relevant \<and> relevant \<noteq> [] \<and>
         processing_tasks stores (unique_docs relevant) = Inr tasks \<and>
         filtered_results ucd (valid_results (processed_results ext request tasks)) = [])) \<and>
   (?chat = Inl Uncaught \<longleftrightarrow> stores \<noteq> [] \<and> ?lookup = Raises) \<and>
   (?chat = Inl e \<longrightarrow>
      e = no_pdfs \<or> e = no_relevant_docs \<or> e = none_after_filtering \<or> e = Uncaught)"
  proof (cases ?lookup)
    case Raises
    have "?chat = (if stores = [] then Inl no_pdfs else Inl Uncaught)"
      by (simp add: chat_with_pdfs_def chat_sorted_raises [OF Raises])
    with Raises failures_distinct show ?thesis
      by auto
  next
    case (Returns relevant)
    obtain tasks where t: "processing_tasks stores (unique_docs relevant) = Inr tasks"
      using processing_tasks_total by blast
    have chat: "?chat =
       (if stores = [] then Inl no_pdfs
        else if relevant = [] then Inl no_relevant_docs
        else if filtered_results ucd (valid_results (processed_results ext request tasks)) = []
          then Inl none_after_filtering
        else Inr (assemble (filter_and_sort ucd (processed_results ext request tasks))))"
      by (simp add: chat_with_pdfs_def chat_sorted_cases [OF Returns t])
    have a: "?chat = Inl no_pdfs \<longleftrightarrow> stores = []"
      using failures_distinct by (auto simp: chat)
    have b: "?chat = Inl no_relevant_docs \<longleftrightarrow> stores \<noteq> [] \<and> ?lookup = Returns []"
      using failures_distinct Returns by (auto simp: chat)
    have c: "?chat = Inl none_after_filtering \<longleftrightarrow>
      stores \<noteq> [] \<and>
      (\<exists>relevant tasks. ?lookup = Returns relevant \<and> relevant \<noteq> [] \<and>
         processing_tasks stores (unique_docs relevant) = Inr tasks \<and>
         filtered_results ucd (valid_results (processed_results ext request tasks)) = [])"
      using failures_distinct Returns t by (auto simp: chat)
    have d: "?chat = Inl Uncaught \<longleftrightarrow> stores \<noteq> [] \<and> ?lookup = Raises"
      using failures_distinct Returns by (auto simp: chat)
    have e: "?chat = Inl e \<longrightarrow>
      e = no_pdfs \<or> e = no_relevant_docs \<or> e = none_after_filtering \<or> e = Uncaught"
      by (auto simp: chat split: if_splits)
    from a b c d e show ?thesis by blast
  qed
  from main r f show ?thesis by blast
qed

theorem three_failures_witness:
  "chat_with_pdfs ex_unicode ex_scoring [] ex_request = Inl no_pdfs \<and>
   ex_silent \<noteq> [] \<and> all_relevant_docs ex_silent (query ex_request) = Returns [] \<and>
   chat_with_pdfs ex_unicode ex_scoring ex_silent ex_request = Inl no_relevant_docs \<and>
   ex_intro \<noteq> [] \<and>
   all_relevant_docs ex_intro (query ex_request) = Returns [mk_chunk ''delta'' ''b.pdf'' 0] \<and>
   chat_with_pdfs ex_unicode ex_scoring ex_intro ex_request = Inl none_after_filtering \<and>
   ex_raising \<noteq> [] \<and> all_relevant_docs ex_raising (query ex_request) = Raises \<and>
   chat_with_pdfs ex_unicode ex_scoring ex_raising ex_request = Inl Uncaught \<and>
   detail no_pdfs \<noteq> detail no_relevant_docs \<and>
   detail no_pdfs \<noteq> detail none_after_filtering \<and>
   detail no_relevant_docs \<noteq> detail none_after_filtering"
proof -
  from three_failures [of ex_unicode ex_scoring "[]" ex_request]
  have a: "chat_with_pdfs ex_unicode ex_scoring [] ex_request = Inl no_pdfs"
    by blast
  have s: "ex_silent \<noteq> []" "all_relevant_docs ex_silent (query ex_request) = Returns []"
    by (simp_all add: ex_silent_def all_relevant_docs_def)
  with three_failures [of ex_unicode ex_scoring ex_silent ex_request]
  have b: "chat_with_pdfs ex_unicode ex_scoring ex_silent ex_request = Inl no_relevant_docs"
    by blast
  have i: "ex_intro \<noteq> []" "[mk_chunk ''delta'' ''b.pdf'' 0] \<noteq> []"
    by (simp_all add: ex_intro_def)
  have "filtered_results ex_unicode (valid_results (processed_results ex_scoring ex_request
      [(mk_chunk ''delta'' ''b.pdf'' 0, [lit ''Introduction''])])) = []"
    by (simp only: ex_intro_processed ex_intro_filtered)
  with i ex_intro_relevant ex_intro_tasks
    three_failures [of ex_unicode ex_scoring ex_intro ex_request]
  have c: "chat_with_pdfs ex_unicode ex_scoring ex_intro ex_request = Inl none_after_filtering"
    by blast
  have r: "ex_raising \<noteq> []" "all_relevant_docs ex_raising (query ex_request) = Raises"
    by (simp_all add: ex_raising_def all_relevant_docs_def)
  with three_failures [of ex_unicode ex_scoring ex_raising ex_request]
  have u: "chat_with_pdfs ex_unicode ex_scoring ex_raising ex_request = Inl Uncaught"
    by blast
  from three_failures [of ex_unicode ex_scoring ex_intro ex_request]
  have "distinct [detail no_pdfs, detail no_relevant_docs, detail none_after_filtering]"
    by blast
  then have d: "detail no_pdfs \<noteq> detail no_relevant_docs"
    "detail no_pdfs \<noteq> detail none_after_filtering"
    "detail no_relevant_docs \<noteq> detail none_after_filtering"
    by simp_all
  from a s b i(1) ex_intro_relevant c r u d show ?thesis by blast
qed

text \<open>
  Against C1 as stated: the failure for an empty pool and the failure for a pool that
  filtering empties are both raised on concrete requests, and they carry the same
  failure code; and a request whose lookup raises fails with an error that is none of
  the three.
\<close>

theorem failure_codes_not_distinct:
  "chat_with_pdfs ex_unicode ex_scoring ex_silent ex_request = Inl no_relevant_docs \<and>
   chat_with_pdfs ex_unicode ex_scoring ex_intro ex_request = Inl none_after_filtering \<and>
   status_code no_relevant_docs = status_code none_after_filtering \<and>
   chat_with_pdfs ex_unicode ex_scoring ex_raising ex_request = Inl Uncaught \<and>
   Uncaught \<noteq> no_pdfs \<and> Uncaught \<noteq> no_relevant_docs \<and> Uncaught \<noteq> none_after_filtering"
  by (simp add: ex_silent_chat ex_intro_chat ex_raising_chat no_pdfs_def no_relevant_docs_def
      none_after_filtering_def)
subsection \<open>Heading extraction\<close>

lemma set_set_add: "set (set_add x xs) = insert x (set xs)"
  by (auto simp: set_add_def)

lemma distinct_set_add: "distinct xs \<Longrightarrow> distinct (set_add x xs)"
  by (simp add: set_add_def)

lemma isupper_loop_iff:
  "isupper_loop ucd cased s \<longleftrightarrow>
     (\<forall>ch \<in> set s. \<not> uc_islower ucd ch \<and> \<not> uc_istitle ucd ch) \<and>
     (cased \<or> (\<exists>ch \<in> set s. uc_isupper ucd ch))"
  by (induction s arbitrary: cased) auto

lemma py_isupper_iff:
  "length s \<noteq> 1 \<Longrightarrow> py_isupper ucd s \<longleftrightarrow> entirely_upper ucd s"
proof (cases s)
  case Nil
  then show ?thesis
    by (simp add: py_isupper_def entirely_upper_def)
next
  case (Cons ch rest)
  assume "length s \<noteq> 1"
  with Cons obtain ch' rest' where "rest = ch' # rest'"
    by (cases rest) auto
  with Cons show ?thesis
    unfolding py_isupper_def entirely_upper_def
    by (simp only: list.case isupper_loop_iff) simp
qed

lemma istitle_loop_iff:
  "istitle_loop ucd previous_is_cased cased s \<longleftrightarrow>
     (cased \<or> (\<exists>ch \<in> set s. cased_char ucd ch)) \<and>
     (\<forall>(after_cased, ch) \<in> set (zip (previous_is_cased # map (cased_char ucd) s) s).
        (uc_isupper ucd ch \<or> uc_istitle ucd ch \<longrightarrow> \<not> after_cased) \<and>
        (uc_islower ucd ch \<and> \<not> uc_isupper ucd ch \<and> \<not> uc_istitle ucd ch \<longrightarrow> after_cased))"
proof (induction s arbitrary: previous_is_cased cased)
  case Nil
  then show ?case by simp
next
  case (Cons ch rest)
  show ?case
  proof (cases "uc_isupper ucd ch \<or> uc_istitle ucd ch")
    case True
    then have c: "cased_char ucd ch"
      by (auto simp: cased_char_def)
    show ?thesis
    proof (cases previous_is_cased)
      case True
      with \<open>uc_isupper ucd ch \<or> uc_istitle ucd ch\<close> show ?thesis by auto
    next
      case False
      with True c Cons.IH [of True True] show ?thesis by auto
    qed
  next
    case False
    note not_upper = this
    show ?thesis
    proof (cases "uc_islower ucd ch")
      case True
      then have c: "cased_char ucd ch"
        by (simp add: cased_char_def)
      show ?thesis
      proof (cases previous_is_cased)
        case True
        with not_upper \<open>uc_islower ucd ch\<close> c Cons.IH [of True True] show ?thesis by auto
      next
        case False
        with not_upper \<open>uc_islower ucd ch\<close> show ?thesis by auto
      qed
    next
      case False
      with not_upper have c: "\<not> cased_char ucd ch"
        by (simp add: cased_char_def)
      with not_upper False Cons.IH [of False cased] show ?thesis by auto
    qed
  qed
qed

lemma py_istitle_iff: "py_istitle ucd s \<longleftrightarrow> title_case ucd s"
proof (cases s)
  case Nil
  then show ?thesis
    by (simp add: py_istitle_def title_case_def)
next
  case (Cons ch rest)
  show ?thesis
  proof (cases rest)
    case Nil
    with Cons show ?thesis
      by (auto simp: py_istitle_def title_case_def cased_char_def)
  next
    case (Cons ch' rest')
    with \<open>s = ch # rest\<close> have "py_istitle ucd s = istitle_loop ucd False False s"
      by (simp add: py_istitle_def)
    then show ?thesis
      by (simp only: istitle_loop_iff title_case_def) simp
  qed
qed

lemma py_split_nonempty: "py_split sep s \<noteq> []"
  by (induction s) (auto split: list.splits)

lemma py_join_Cons_Cons: "py_join sep ((ch # x) # xs) = ch # py_join sep (x # xs)"
  by (cases xs) auto

lemma py_join_split: "py_join [sep] (py_split sep s) = s"
proof (induction s)
  case Nil
  then show ?case by simp
next
  case (Cons ch rest)
  obtain piece pieces where p: "py_split sep rest = piece # pieces"
    using py_split_nonempty [of sep rest] by (cases "py_split sep rest") auto
  with Cons show ?case
    by (simp add: py_join_Cons_Cons)
qed

lemma py_split_pieces: "piece \<in> set (py_split sep s) \<Longrightarrow> sep \<notin> set piece"
proof (induction s arbitrary: piece)
  case Nil
  then show ?case by simp
next
  case (Cons ch rest)
  obtain p ps where p: "py_split sep rest = p # ps"
    using py_split_nonempty [of sep rest] by (cases "py_split sep rest") auto
  with Cons.IH [of p] have hd: "sep \<notin> set p"
    by simp
  from p Cons.IH have tl: "\<forall>q \<in> set ps. sep \<notin> set q"
    by simp
  from Cons.prems p hd tl Cons.IH show ?case
    by (auto split: if_splits)
qed

lemma rstrip_split: "d = rev (dropWhile P (rev d)) @ rev (takeWhile P (rev d))"
proof -
  have "rev (rev d) = rev (takeWhile P (rev d) @ dropWhile P (rev d))"
    by (simp only: takeWhile_dropWhile_id)
  then show ?thesis
    by (simp only: rev_rev_ident rev_append)
qed

lemma rstrip_hd:
  assumes "rev (dropWhile P (rev d)) \<noteq> []"
  shows "hd (rev (dropWhile P (rev d))) = hd d"
  using assms rstrip_split [of d P] by (metis hd_append2)

lemma rstrip_last:
  assumes "rev (dropWhile P (rev d)) \<noteq> []"
  shows "\<not> P (last (rev (dropWhile P (rev d))))"
proof -
  from assms have e: "dropWhile P (rev d) \<noteq> []"
    by simp
  from hd_dropWhile [OF e] have "\<not> P (hd (dropWhile P (rev d)))" .
  then show ?thesis
    by (simp add: last_rev)
qed

lemma rstrip_nonempty: "rev (dropWhile P (rev d)) \<noteq> [] \<Longrightarrow> d \<noteq> []"
  by auto

lemma py_strip_decomposition:
  "\<exists>before after. s = before @ py_strip ucd s @ after \<and>
     (\<forall>ch \<in> set before \<union> set after. uc_isspace ucd ch)"
proof -
  let ?P = "uc_isspace ucd"
  define d where "d = dropWhile ?P s"
  have 1: "s = takeWhile ?P s @ d"
    by (simp add: d_def)
  have 2: "d = py_strip ucd s @ rev (takeWhile ?P (rev d))"
    unfolding py_strip_def d_def [symmetric] by (rule rstrip_split)
  have 3: "\<forall>ch \<in> set (takeWhile ?P s) \<union> set (rev (takeWhile ?P (rev d))). ?P ch"
    by (auto dest: set_takeWhileD)
  from 1 2 have "s = takeWhile ?P s @ py_strip ucd s @ rev (takeWhile ?P (rev d))"
    by simp
  with 3 show ?thesis by blast
qed

lemma py_strip_ends:
  assumes "py_strip ucd s \<noteq> []"
  shows "\<not> uc_isspace ucd (hd (py_strip ucd s))" and "\<not> uc_isspace ucd (last (py_strip ucd s))"
proof -
  let ?P = "uc_isspace ucd"
  define d where "d = dropWhile ?P s"
  have strip: "py_strip ucd s = rev (dropWhile ?P (rev d))"
    by (simp only: py_strip_def d_def)
  with assms have ne: "rev (dropWhile ?P (rev d)) \<noteq> []"
    by simp
  then have "d \<noteq> []"
    by (rule rstrip_nonempty)
  then have nd: "dropWhile ?P s \<noteq> []"
    unfolding d_def .
  from hd_dropWhile [OF nd] have "\<not> ?P (hd d)"
    unfolding d_def .
  with rstrip_hd [OF ne] show "\<not> ?P (hd (py_strip ucd s))"
    unfolding strip by simp
  from rstrip_last [OF ne] show "\<not> ?P (last (py_strip ucd s))"
    unfolding strip .
qed

lemma collect_headings_set:
  "set (collect_headings ucd lines acc) =
     set acc \<union>
     {trimmed. \<exists>line \<in> set lines. trimmed = py_strip ucd line \<and>
        3 < length trimmed \<and> length trimmed < 100 \<and>
        (py_isupper ucd trimmed \<or> py_istitle ucd trimmed)}"
proof (induction lines arbitrary: acc)
  case Nil
  then show ?case by simp
next
  case (Cons line lines)
  show ?case
    by (simp add: Let_def Cons.IH set_set_add) blast
qed

lemma collect_headings_distinct:
  "distinct acc \<Longrightarrow> distinct (collect_headings ucd lines acc)"
  by (induction lines arbitrary: acc) (simp_all add: Let_def distinct_set_add)
lemma ex_text_lines:
  "py_split newline ex_text =
     [lit ''INTRODUCTION'', lit ''  Some Heading Words  '', lit ''body text here'', lit ''ABC'',
      lit ([CHR 0xA0] @ ''RESULTS'' @ [CHR 0xA0]), lit (CHR 0xC9 # ''mile Zola''),
      lit ''INTRODUCTION'']"
  by code_simp

lemma ex_text_headings:
  "extract_headings ex_unicode ex_text =
     [lit ''INTRODUCTION'', lit ''Some Heading Words'', lit ''RESULTS'',
      lit (CHR 0xC9 # ''mile Zola'')]"
  by code_simp

text \<open>
  C9. The headings extracted from a text are exactly the trimmed lines whose length is
  strictly between 3 and 100 and which are entirely upper-case or in title case, each
  once. The extractor is a total function, and the empty text has no headings. The lines
  are the pieces of the text between its newlines, and trimming a line removes white
  space, and nothing else, from its two ends, up to the first and from the last
  character that is not white space. All this holds for whatever character tables the
  interpreter has.
\<close>

theorem headings_are_the_kept_lines:
  "set (extract_headings ucd full_text) =
     {trimmed. \<exists>line \<in> set (py_split newline full_text).
        trimmed = py_strip ucd line \<and> 3 < length trimmed \<and> length trimmed < 100 \<and>
        (entirely_upper ucd trimmed \<or> title_case ucd trimmed)} \<and>
   distinct (extract_headings ucd full_text) \<and>
   extract_headings ucd [] = [] \<and>
   py_join [newline] (py_split newline full_text) = full_text \<and>
   (\<forall>line \<in> set (py_split newline full_text). newline \<notin> set line) \<and>
   (\<exists>before after. line = before @ py_strip ucd line @ after \<and>
      (\<forall>ch \<in> set before \<union> set after. uc_isspace ucd ch)) \<and>
   (py_strip ucd line \<noteq> [] \<longrightarrow>
      \<not> uc_isspace ucd (hd (py_strip ucd line)) \<and>
      \<not> uc_isspace ucd (last (py_strip ucd line)))"
proof -
  have test: "(py_isupper ucd trimmed \<or> py_istitle ucd trimmed) \<longleftrightarrow>
      (entirely_upper ucd trimmed \<or> title_case ucd trimmed)"
    if "3 < length trimmed" for trimmed
  proof -
    from that have "length trimmed \<noteq> 1"
      by simp
    then have "py_isupper ucd trimmed \<longleftrightarrow> entirely_upper ucd trimmed"
      by (rule py_isupper_iff)
    then show ?thesis
      by (simp add: py_istitle_iff)
  qed
  have "set (extract_headings ucd full_text) =
     {trimmed. \<exists>line \<in> set (py_split newline full_text).
        trimmed = py_strip ucd line \<and> 3 < length trimmed \<and> length trimmed < 100 \<and>
        (py_isupper ucd trimmed \<or> py_istitle ucd trimmed)}"
    by (simp add: extract_headings_def collect_headings_set)
  also have "\<dots> =
     {trimmed. \<exists>line \<in> set (py_split newline full_text).
        trimmed = py_strip ucd line \<and> 3 < length trimmed \<and> length trimmed < 100 \<and>
        (entirely_upper ucd trimmed \<or> title_case ucd trimmed)}"
    using test by blast
  finally have a: "set (extract_headings ucd full_text) =
     {trimmed. \<exists>line \<in> set (py_split newline full_text).
        trimmed = py_strip ucd line \<and> 3 < length trimmed \<and> length trimmed < 100 \<and>
        (entirely_upper ucd trimmed \<or> title_case ucd trimmed)}" .
  have b: "distinct (extract_headings ucd full_text)"
    by (simp add: extract_headings_def collect_headings_distinct)
  have c: "extract_headings ucd [] = []"
    by (simp add: extract_headings_def py_strip_def)
  have d: "py_join [newline] (py_split newline full_text) = full_text"
    by (rule py_join_split)
  have e: "\<forall>line \<in> set (py_split newline full_text). newline \<notin> set line"
    using py_split_pieces by blast
  have f: "\<exists>before after. line = before @ py_strip ucd line @ after \<and>
      (\<forall>ch \<in> set before \<union> set after. uc_isspace ucd ch)"
    by (rule py_strip_decomposition)
  have g: "py_strip ucd line \<noteq> [] \<longrightarrow>
      \<not> uc_isspace ucd (hd (py_strip ucd line)) \<and>
      \<not> uc_isspace ucd (last (py_strip ucd line))"
    using py_strip_ends by blast
  from a b c d e f g show ?thesis by blast
qed

theorem headings_are_the_kept_lines_witness:
  "extract_headings ex_unicode ex_text =
     [lit ''INTRODUCTION'', lit ''Some Heading Words'', lit ''RESULTS'',
      lit (CHR 0xC9 # ''mile Zola'')] \<and>
   lit ''  Some Heading Words  '' \<in> set (py_split newline ex_text) \<and>
   py_strip ex_unicode (lit ''  Some Heading Words  '') = lit ''Some Heading Words'' \<and>
   title_case ex_unicode (lit ''Some Heading Words'') \<and>
   lit ''Some Heading Words'' \<in> set (extract_headings ex_unicode ex_text) \<and>
   lit ([CHR 0xA0] @ ''RESULTS'' @ [CHR 0xA0]) \<in> set (py_split newline ex_text) \<and>
   py_strip ex_unicode (lit ([CHR 0xA0] @ ''RESULTS'' @ [CHR 0xA0])) = lit ''RESULTS'' \<and>
   entirely_upper ex_unicode (lit ''RESULTS'') \<and>
   lit ''RESULTS'' \<in> set (extract_headings ex_unicode ex_text) \<and>
   title_case ex_unicode (lit (CHR 0xC9 # ''mile Zola'')) \<and>
   lit (CHR 0xC9 # ''mile Zola'') \<in> set (extract_headings ex_unicode ex_text) \<and>
   entirely_upper ex_unicode (lit ''ABC'') \<and> lit ''ABC'' \<in> set (py_split newline ex_text) \<and>
   lit ''ABC'' \<notin> set (extract_headings ex_unicode ex_text) \<and>
   lit ''body text here'' \<notin> set (extract_headings ex_unicode ex_text) \<and>
   distinct (extract_headings ex_unicode ex_text) \<and>
   py_join [newline] (py_split newline ex_text) = ex_text"
proof -
  note t = headings_are_the_kept_lines [of ex_unicode ex_text]
  let ?nbsp = "lit ([CHR 0xA0] @ ''RESULTS'' @ [CHR 0xA0])"
  let ?zola = "lit (CHR 0xC9 # ''mile Zola'')"
  have l: "lit ''  Some Heading Words  '' \<in> set (py_split newline ex_text)"
    "?nbsp \<in> set (py_split newline ex_text)" "?zola \<in> set (py_split newline ex_text)"
    "lit ''ABC'' \<in> set (py_split newline ex_text)"
    by (simp_all add: ex_text_lines)
  have s: "py_strip ex_unicode (lit ''  Some Heading Words  '') = lit ''Some Heading Words''"
    "py_strip ex_unicode ?nbsp = lit ''RESULTS''"
    "py_strip ex_unicode ?zola = ?zola"
    by code_simp+
  have p: "py_istitle ex_unicode (lit ''Some Heading Words'')"
    "py_isupper ex_unicode (lit ''RESULTS'')" "py_istitle ex_unicode ?zola"
    "py_isupper ex_unicode (lit ''ABC'')"
    by code_simp+
  have q: "title_case ex_unicode (lit ''Some Heading Words'')"
    "entirely_upper ex_unicode (lit ''RESULTS'')" "title_case ex_unicode ?zola"
    "entirely_upper ex_unicode (lit ''ABC'')"
    using p by (simp_all add: py_istitle_iff [symmetric] py_isupper_iff [symmetric])
  have "\<exists>line \<in> set (py_split newline ex_text).
        lit ''Some Heading Words'' = py_strip ex_unicode line \<and>
        3 < length (lit ''Some Heading Words'') \<and> length (lit ''Some Heading Words'') < 100 \<and>
        (entirely_upper ex_unicode (lit ''Some Heading Words'') \<or>
         title_case ex_unicode (lit ''Some Heading Words''))"
    using l(1) s(1) q(1) by (intro bexI [of _ "lit ''  Some Heading Words  ''"]) simp_all
  with t have m1: "lit ''Some Heading Words'' \<in> set (extract_headings ex_unicode ex_text)"
    by blast
  have "\<exists>line \<in> set (py_split newline ex_text).
        lit ''RESULTS'' = py_strip ex_unicode line \<and>
        3 < length (lit ''RESULTS'') \<and> length (lit ''RESULTS'') < 100 \<and>
        (entirely_upper ex_unicode (lit ''RESULTS'') \<or> title_case ex_unicode (lit ''RESULTS''))"
    using l(2) s(2) q(2) by (intro bexI [of _ ?nbsp]) simp_all
  with t have m2: "lit ''RESULTS'' \<in> set (extract_headings ex_unicode ex_text)"
    by blast
  have "\<exists>line \<in> set (py_split newline ex_text).
        ?zola = py_strip ex_unicode line \<and> 3 < length ?zola \<and> length ?zola < 100 \<and>
        (entirely_upper ex_unicode ?zola \<or> title_case ex_unicode ?zola)"
    using l(3) s(3) q(3) by (intro bexI [of _ ?zola]) simp_all
  with t have m3: "?zola \<in> set (extract_headings ex_unicode ex_text)"
    by blast
  have n: "lit ''ABC'' \<notin> set (extract_headings ex_unicode ex_text)"
    "lit ''body text here'' \<notin> set (extract_headings ex_unicode ex_text)"
    by (simp_all add: ex_text_headings)
  from t have d: "distinct (extract_headings ex_unicode ex_text)"
    "py_join [newline] (py_split newline ex_text) = ex_text"
    by blast+
  from ex_text_headings l s q m1 m2 m3 n d show ?thesis by blast
qed
subsection \<open>Ingestion\<close>

lemma ingest_files_processed:
  "\<forall>f \<in> set files. \<not> write_raises ucd ext f \<Longrightarrow>
     snd (ingest_files ucd ext files stores processed)
       = Returns (processed @ List.map_filter (file_outcome ucd ext) files)"
proof (induction files arbitrary: stores processed)
  case Nil
  then show ?case by (simp add: map_filter_simps)
next
  case (Cons f fs)
  then have rest: "\<And>stores processed. snd (ingest_files ucd ext fs stores processed)
      = Returns (processed @ List.map_filter (file_outcome ucd ext) fs)"
    by simp
  from Cons.prems have w: "\<not> write_raises ucd ext f"
    by simp
  show ?case
  proof (cases "is_pdf_name ucd (filename f)")
    case False
    then have "file_outcome ucd ext f = None"
      by (simp add: file_outcome_def)
    with False show ?thesis
      by (simp add: rest map_filter_simps)
  next
    case True
    with w obtain written where wr: "write_upload ext f = Returns written"
      by (cases "write_upload ext f") (auto simp: write_raises_def)
    from True have "file_outcome ucd ext f
        = map_option (success_entry f) (process_pdf ucd ext (file_bytes f) (filename f))"
      by (simp add: file_outcome_def)
    with True wr show ?thesis
      by (cases "process_pdf ucd ext (file_bytes f) (filename f)")
        (simp_all add: rest map_filter_simps)
  qed
qed

lemma ingest_files_raises:
  "snd (ingest_files ucd ext files stores processed) = Raises \<longleftrightarrow>
     (\<exists>f \<in> set files. write_raises ucd ext f)"
proof (induction files arbitrary: stores processed)
  case Nil
  then show ?case by simp
next
  case (Cons f fs)
  show ?case
  proof (cases "write_raises ucd ext f")
    case True
    then show ?thesis
      by (simp add: write_raises_def)
  next
    case False
    show ?thesis
    proof (cases "is_pdf_name ucd (filename f)")
      case False
      with Cons.IH \<open>\<not> write_raises ucd ext f\<close> show ?thesis
        by simp
    next
      case True
      with \<open>\<not> write_raises ucd ext f\<close> obtain written where "write_upload ext f = Returns written"
        by (cases "write_upload ext f") (auto simp: write_raises_def)
      with True Cons.IH \<open>\<not> write_raises ucd ext f\<close> show ?thesis
        by (simp split: option.splits)
    qed
  qed
qed

lemma ingest_files_skip:
  assumes "file_outcome ucd ext file = None" and "\<not> write_raises ucd ext file"
  shows "ingest_files ucd ext (before @ file # after) stores processed
       = ingest_files ucd ext (before @ after) stores processed"
proof (induction before arbitrary: stores processed)
  case Nil
  show ?case
  proof (cases "is_pdf_name ucd (filename file)")
    case False
    then show ?thesis by simp
  next
    case True
    with assms(2) obtain written where "write_upload ext file = Returns written"
      by (cases "write_upload ext file") (auto simp: write_raises_def)
    with True assms(1) show ?thesis
      by (simp add: file_outcome_def)
  qed
next
  case (Cons b before)
  then have eq: "\<And>stores processed.
      ingest_files ucd ext (before @ file # after) stores processed
        = ingest_files ucd ext (before @ after) stores processed"
    by simp
  show ?case
    unfolding append_Cons ingest_files.simps eq by (rule refl)
qed

lemma analyze_result:
  assumes "\<not> storage_raises ucd ext files"
  shows "snd (analyze_pdfs_endpoint ucd ext new_id stores files) =
     (if files = [] then Inl no_files
      else if List.map_filter (file_outcome ucd ext) files = [] then Inl none_processed
      else Inr \<lparr>analysis_id = new_id,
              total_documents_processed = length (List.map_filter (file_outcome ucd ext) files),
              results = List.map_filter (file_outcome ucd ext) files\<rparr>)"
proof -
  from assms have w: "\<forall>f \<in> set files. \<not> write_raises ucd ext f"
    by (simp add: storage_raises_def)
  from assms obtain made removed where
    m: "make_temp_dir ext = Returns made" "remove_temp_dir ext = Returns removed"
    by (cases "make_temp_dir ext"; cases "remove_temp_dir ext")
      (auto simp: storage_raises_def)
  obtain stores' outcome where i: "ingest_files ucd ext files stores [] = (stores', outcome)"
    by (cases "ingest_files ucd ext files stores []")
  then have "outcome = Returns (List.map_filter (file_outcome ucd ext) files)"
    using ingest_files_processed [OF w, of stores "[]"] by simp
  with i m show ?thesis
    by (simp add: analyze_pdfs_endpoint_def)
qed

lemma analyze_uncaught:
  assumes "files \<noteq> []"
  shows "snd (analyze_pdfs_endpoint ucd ext new_id stores files) = Inl Uncaught \<longleftrightarrow>
     storage_raises ucd ext files"
proof (cases "storage_raises ucd ext files")
  case False
  with assms show ?thesis
    by (simp add: analyze_result none_processed_def)
next
  case True
  obtain stores' outcome where i: "ingest_files ucd ext files stores [] = (stores', outcome)"
    by (cases "ingest_files ucd ext files stores []")
  then have r: "outcome = Raises \<longleftrightarrow> (\<exists>f \<in> set files. write_raises ucd ext f)"
    using ingest_files_raises [of ucd ext files stores "[]"] by simp
  have "snd (analyze_pdfs_endpoint ucd ext new_id stores files) = Inl Uncaught"
  proof (cases "make_temp_dir ext")
    case Raises
    with assms show ?thesis
      by (simp add: analyze_pdfs_endpoint_def)
  next
    case (Returns made)
    show ?thesis
    proof (cases outcome)
      case Raises
      with assms i \<open>make_temp_dir ext = Returns made\<close> show ?thesis
        by (simp add: analyze_pdfs_endpoint_def)
    next
      case (Returns processed)
      with r have "\<not> (\<exists>f \<in> set files. write_raises ucd ext f)"
        by simp
      with True \<open>make_temp_dir ext = Returns made\<close> have "remove_temp_dir ext = Raises"
        by (simp add: storage_raises_def)
      with assms i Returns \<open>make_temp_dir ext = Returns made\<close> show ?thesis
        by (simp add: analyze_pdfs_endpoint_def)
    qed
  qed
  with True show ?thesis by simp
qed

text \<open>
  C8 as the program has it. \<open>process_pdf\<close> gives \<open>None\<close> when the load raises or returns no
  page, when the splitter raises and when the index build raises. A file that
  contributes nothing and whose write does not raise is skipped: the loop does what it
  does for the batch without that file. When no write of the batch raises, the success
  list holds, in upload order, the entry of every file that succeeds taken by itself.
  When no step of the temporary storage raises, the endpoint fails exactly when no file
  of the batch succeeds. The loop ends with an exception exactly when a write raises,
  and a batch that is not empty fails with an exception that is not caught exactly when
  a step of the temporary storage raises.
\<close>

theorem ingestion_per_document:
  "(loader_load ext content = Raises \<longrightarrow> process_pdf ucd ext content fname = None) \<and>
   (loader_load ext content = Returns [] \<longrightarrow> process_pdf ucd ext content fname = None) \<and>
   (loader_load ext content = Returns documents \<and>
    split_documents ext (map (\<lambda>doc. doc\<lparr>metadata_source := Some fname\<rparr>) documents) = Raises \<longrightarrow>
      process_pdf ucd ext content fname = None) \<and>
   (loader_load ext content = Returns documents \<and>
    split_documents ext (map (\<lambda>doc. doc\<lparr>metadata_source := Some fname\<rparr>) documents)
      = Returns chunks \<and>
    from_documents ext chunks = Raises \<longrightarrow>
      process_pdf ucd ext content fname = None) \<and>
   (file_outcome ucd ext skipped = None \<and> \<not> write_raises ucd ext skipped \<longrightarrow>
      ingest_files ucd ext (before @ skipped # after) stores []
        = ingest_files ucd ext (before @ after) stores []) \<and>
   ((\<forall>f \<in> set files. \<not> write_raises ucd ext f) \<longrightarrow>
      snd (ingest_files ucd ext files stores [])
        = Returns (List.map_filter (file_outcome ucd ext) files)) \<and>
   (\<not> storage_raises ucd ext files \<longrightarrow>
      (snd (analyze_pdfs_endpoint ucd ext new_id stores files) = Inr response \<longrightarrow>
         results response = List.map_filter (file_outcome ucd ext) files \<and>
         results response \<noteq> [] \<and>
         total_documents_processed response = length (results response)) \<and>
      ((\<exists>e. snd (analyze_pdfs_endpoint ucd ext new_id stores files) = Inl e) \<longleftrightarrow>
         List.map_filter (file_outcome ucd ext) files = [])) \<and>
   (snd (ingest_files ucd ext files stores []) = Raises \<longleftrightarrow>
      (\<exists>f \<in> set files. write_raises ucd ext f)) \<and>
   (files \<noteq> [] \<longrightarrow>
      (snd (analyze_pdfs_endpoint ucd ext new_id stores files) = Inl Uncaught \<longleftrightarrow>
         storage_raises ucd ext files))"
proof -
  have a: "loader_load ext content = Raises \<longrightarrow> process_pdf ucd ext content fname = None"
    "loader_load ext content = Returns [] \<longrightarrow> process_pdf ucd ext content fname = None"
    by (simp_all add: process_pdf_def)
  have b: "loader_load ext content = Returns documents \<and>
    split_documents ext (map (\<lambda>doc. doc\<lparr>metadata_source := Some fname\<rparr>) documents) = Raises \<longrightarrow>
      process_pdf ucd ext content fname = None"
    by (simp add: process_pdf_def Let_def)
  have c: "loader_load ext content = Returns documents \<and>
    split_documents ext (map (\<lambda>doc. doc\<lparr>metadata_source := Some fname\<rparr>) documents)
      = Returns chunks \<and>
    from_documents ext chunks = Raises \<longrightarrow>
      process_pdf ucd ext content fname = None"
    by (simp add: process_pdf_def Let_def)
  have d: "file_outcome ucd ext skipped = None \<and> \<not> write_raises ucd ext skipped \<longrightarrow>
      ingest_files ucd ext (before @ skipped # after) stores []
        = ingest_files ucd ext (before @ after) stores []"
    using ingest_files_skip by blast
  have e: "snd (ingest_files ucd ext files stores [])
        = Returns (List.map_filter (file_outcome ucd ext) files)"
    if w: "\<forall>f \<in> set files. \<not> write_raises ucd ext f"
    using ingest_files_processed [OF w, of stores "[]"] by simp
  have f: "(snd (analyze_pdfs_endpoint ucd ext new_id stores files) = Inr response \<longrightarrow>
         results response = List.map_filter (file_outcome ucd ext) files \<and>
         results response \<noteq> [] \<and>
         total_documents_processed response = length (results response)) \<and>
      ((\<exists>e. snd (analyze_pdfs_endpoint ucd ext new_id stores files) = Inl e) \<longleftrightarrow>
         List.map_filter (file_outcome ucd ext) files = [])"
    if s: "\<not> storage_raises ucd ext files"
  proof -
    have 2: "snd (analyze_pdfs_endpoint ucd ext new_id stores files) = Inr response \<longrightarrow>
         results response = List.map_filter (file_outcome ucd ext) files \<and>
         results response \<noteq> [] \<and>
         total_documents_processed response = length (results response)"
      by (auto simp: analyze_result [OF s] split: if_splits)
    have 3: "(\<exists>e. snd (analyze_pdfs_endpoint ucd ext new_id stores files) = Inl e) \<longleftrightarrow>
         List.map_filter (file_outcome ucd ext) files = []"
      by (auto simp: analyze_result [OF s] map_filter_simps)
    from 2 3 show ?thesis by blast
  qed
  have g: "snd (ingest_files ucd ext files stores []) = Raises \<longleftrightarrow>
      (\<exists>f \<in> set files. write_raises ucd ext f)"
    by (rule ingest_files_raises)
  have h: "files \<noteq> [] \<longrightarrow>
      (snd (analyze_pdfs_endpoint ucd ext new_id stores files) = Inl Uncaught \<longleftrightarrow>
         storage_raises ucd ext files)"
    using analyze_uncaught by blast
  from a b c d e f g h show ?thesis by blast
qed
lemma ex_names:
  "is_pdf_name ex_unicode (lit ''one.pdf'')" "is_pdf_name ex_unicode (lit ''two.pdf'')"
  "\<not> is_pdf_name ex_unicode (lit ''notes.txt'')" "is_pdf_name ex_unicode (lit ''three.PDF'')"
  "is_pdf_name ex_unicode (lit ''four.pdf'')" "is_pdf_name ex_unicode (lit ''five.pdf'')"
  "is_pdf_name ex_unicode (lit ''six.pdf'')" "is_pdf_name ex_unicode (lit ''sub/x.pdf'')"
  by code_simp+

lemma ex_slashes:
  "47 \<notin> set (lit ''one.pdf'')" "47 \<notin> set (lit ''two.pdf'')" "47 \<notin> set (lit ''notes.txt'')"
  "47 \<notin> set (lit ''three.PDF'')" "47 \<notin> set (lit ''four.pdf'')" "47 \<notin> set (lit ''five.pdf'')"
  "47 \<notin> set (lit ''six.pdf'')" "47 \<in> set (lit ''sub/x.pdf'')"
  by code_simp+

lemma ex_heading_counts:
  "length (extract_headings ex_unicode (lit ex_page)) = 4"
  "length (extract_headings ex_unicode (lit ''Some Heading Words'')) = 1"
  by code_simp+

lemma ex_page_not_special:
  "ex_page \<noteq> ''broken''" "ex_page \<noteq> ''blank''" "ex_page \<noteq> ''unsplittable''"
  "ex_page \<noteq> ''unindexable''"
  by (simp_all add: ex_page_def)

lemma ex_outcomes:
  "file_outcome ex_unicode ex_ingestion (upload ''one.pdf'' ex_page) = Some (entry ''one.pdf'' 4)"
  "file_outcome ex_unicode ex_ingestion (upload ''two.pdf'' ''broken'') = None"
  "file_outcome ex_unicode ex_ingestion (upload ''notes.txt'' ''x'') = None"
  "file_outcome ex_unicode ex_ingestion (upload ''three.PDF'' ''Some Heading Words'')
     = Some (entry ''three.PDF'' 1)"
  "file_outcome ex_unicode ex_ingestion (upload ''four.pdf'' ''blank'') = None"
  "file_outcome ex_unicode ex_ingestion (upload ''five.pdf'' ''unsplittable'') = None"
  "file_outcome ex_unicode ex_ingestion (upload ''six.pdf'' ''unindexable'') = None"
  by (simp_all add: file_outcome_def upload_def ex_names process_pdf_def ex_ingestion_def
      ex_page_not_special ex_page_not_special [symmetric] success_entry_def entry_def
      ex_heading_counts)

lemma ex_writes:
  "\<not> write_raises ex_unicode ex_ingestion (upload ''one.pdf'' ex_page)"
  "\<not> write_raises ex_unicode ex_ingestion (upload ''two.pdf'' ''broken'')"
  "\<not> write_raises ex_unicode ex_ingestion (upload ''notes.txt'' ''x'')"
  "\<not> write_raises ex_unicode ex_ingestion (upload ''three.PDF'' ''Some Heading Words'')"
  "\<not> write_raises ex_unicode ex_ingestion (upload ''four.pdf'' ''blank'')"
  "\<not> write_raises ex_unicode ex_ingestion (upload ''five.pdf'' ''unsplittable'')"
  "\<not> write_raises ex_unicode ex_ingestion (upload ''six.pdf'' ''unindexable'')"
  "write_raises ex_unicode ex_ingestion (upload ''sub/x.pdf'' ''x'')"
  by (simp_all add: write_raises_def upload_def ex_ingestion_def ex_slashes ex_names)

theorem ingestion_per_document_witness:
  "loader_load ex_ingestion ''broken'' = Raises \<and>
   process_pdf ex_unicode ex_ingestion ''broken'' (lit ''two.pdf'') = None \<and>
   loader_load ex_ingestion ''blank'' = Returns [] \<and>
   process_pdf ex_unicode ex_ingestion ''blank'' (lit ''four.pdf'') = None \<and>
   process_pdf ex_unicode ex_ingestion ''unsplittable'' (lit ''five.pdf'') = None \<and>
   process_pdf ex_unicode ex_ingestion ''unindexable'' (lit ''six.pdf'') = None \<and>
   list_all (\<lambda>f. \<not> write_raises ex_unicode ex_ingestion f) ex_files \<and>
   \<not> storage_raises ex_unicode ex_ingestion ex_files \<and>
   snd (ingest_files ex_unicode ex_ingestion ex_files [] [])
     = Returns [entry ''one.pdf'' 4, entry ''three.PDF'' 1] \<and>
   ingest_files ex_unicode ex_ingestion
       ([upload ''one.pdf'' ex_page] @ upload ''two.pdf'' ''broken''
          # [upload ''three.PDF'' ''Some Heading Words'']) [] []
     = ingest_files ex_unicode ex_ingestion
         ([upload ''one.pdf'' ex_page] @ [upload ''three.PDF'' ''Some Heading Words'']) [] [] \<and>
   snd (analyze_pdfs_endpoint ex_unicode ex_ingestion (lit ''id'') [] ex_files)
     = Inr \<lparr>analysis_id = lit ''id'', total_documents_processed = 2,
            results = [entry ''one.pdf'' 4, entry ''three.PDF'' 1]\<rparr> \<and>
   snd (analyze_pdfs_endpoint ex_unicode ex_ingestion (lit ''id'') []
         [upload ''two.pdf'' ''broken''])
     = Inl none_processed"
proof -
  let ?tag = "\<lambda>name. map (\<lambda>doc. doc\<lparr>metadata_source := Some (lit name)\<rparr>)"
  let ?page = "\<lambda>content. [\<lparr>page_content = lit content, metadata_source = None,
     metadata_page = Some 0\<rparr>]"
  have l1: "loader_load ex_ingestion ''broken'' = Raises"
    by (simp add: ex_ingestion_def)
  with ingestion_per_document [of ex_ingestion "''broken''" ex_unicode "lit ''two.pdf''"]
  have p1: "process_pdf ex_unicode ex_ingestion ''broken'' (lit ''two.pdf'') = None"
    by blast
  have l2: "loader_load ex_ingestion ''blank'' = Returns []"
    by (simp add: ex_ingestion_def)
  with ingestion_per_document [of ex_ingestion "''blank''" ex_unicode "lit ''four.pdf''"]
  have p2: "process_pdf ex_unicode ex_ingestion ''blank'' (lit ''four.pdf'') = None"
    by blast
  have l3: "loader_load ex_ingestion ''unsplittable'' = Returns (?page ''unsplittable'')"
    "split_documents ex_ingestion (?tag ''five.pdf'' (?page ''unsplittable'')) = Raises"
    by (simp_all add: ex_ingestion_def)
  with ingestion_per_document [of ex_ingestion "''unsplittable''" ex_unicode "lit ''five.pdf''"
      "?page ''unsplittable''"]
  have p3: "process_pdf ex_unicode ex_ingestion ''unsplittable'' (lit ''five.pdf'') = None"
    by blast
  have l4: "loader_load ex_ingestion ''unindexable'' = Returns (?page ''unindexable'')"
    "split_documents ex_ingestion (?tag ''six.pdf'' (?page ''unindexable''))
       = Returns (?tag ''six.pdf'' (?page ''unindexable''))"
    "from_documents ex_ingestion (?tag ''six.pdf'' (?page ''unindexable'')) = Raises"
    by (simp_all add: ex_ingestion_def)
  with ingestion_per_document [of ex_ingestion "''unindexable''" ex_unicode "lit ''six.pdf''"
      "?page ''unindexable''" "?tag ''six.pdf'' (?page ''unindexable'')"]
  have p4: "process_pdf ex_unicode ex_ingestion ''unindexable'' (lit ''six.pdf'') = None"
    by blast
  have w: "\<forall>f \<in> set ex_files. \<not> write_raises ex_unicode ex_ingestion f"
    by (simp add: ex_files_def ex_writes)
  then have w': "list_all (\<lambda>f. \<not> write_raises ex_unicode ex_ingestion f) ex_files"
    by (simp add: list_all_iff)
  have st: "\<not> storage_raises ex_unicode ex_ingestion ex_files"
    using w by (simp add: storage_raises_def) (simp add: ex_ingestion_def)
  have m: "List.map_filter (file_outcome ex_unicode ex_ingestion) ex_files
      = [entry ''one.pdf'' 4, entry ''three.PDF'' 1]"
    by (simp add: ex_files_def map_filter_simps ex_outcomes)
  have ne: "ex_files \<noteq> []"
    by (simp add: ex_files_def)
  note t = ingestion_per_document [where ucd = ex_unicode and ext = ex_ingestion
      and files = ex_files and stores = "[]" and skipped = "upload ''two.pdf'' ''broken''"
      and before = "[upload ''one.pdf'' ex_page]"
      and after = "[upload ''three.PDF'' ''Some Heading Words'']" and new_id = "lit ''id''"]
  from t w m have s: "snd (ingest_files ex_unicode ex_ingestion ex_files [] [])
     = Returns [entry ''one.pdf'' 4, entry ''three.PDF'' 1]"
    by simp
  from t ex_outcomes(2) ex_writes(2)
  have k: "ingest_files ex_unicode ex_ingestion
       ([upload ''one.pdf'' ex_page] @ upload ''two.pdf'' ''broken''
          # [upload ''three.PDF'' ''Some Heading Words'']) [] []
     = ingest_files ex_unicode ex_ingestion
         ([upload ''one.pdf'' ex_page] @ [upload ''three.PDF'' ''Some Heading Words'']) [] []"
    by blast
  from t st m have "\<not> (\<exists>e. snd (analyze_pdfs_endpoint ex_unicode ex_ingestion (lit ''id'') []
      ex_files) = Inl e)"
    by simp
  then have r: "snd (analyze_pdfs_endpoint ex_unicode ex_ingestion (lit ''id'') [] ex_files)
     = Inr \<lparr>analysis_id = lit ''id'', total_documents_processed = 2,
            results = [entry ''one.pdf'' 4, entry ''three.PDF'' 1]\<rparr>"
    using ne by (simp add: analyze_result [OF st] m)
  have w2: "\<not> storage_raises ex_unicode ex_ingestion [upload ''two.pdf'' ''broken'']"
    by (simp add: storage_raises_def ex_writes) (simp add: ex_ingestion_def)
  have "List.map_filter (file_outcome ex_unicode ex_ingestion) [upload ''two.pdf'' ''broken''] = []"
    by (simp add: map_filter_simps ex_outcomes)
  with w2 ingestion_per_document [where ucd = ex_unicode and ext = ex_ingestion
      and files = "[upload ''two.pdf'' ''broken'']" and stores = "[]" and new_id = "lit ''id''"]
  obtain e where e: "snd (analyze_pdfs_endpoint ex_unicode ex_ingestion (lit ''id'') []
      [upload ''two.pdf'' ''broken'']) = Inl e"
    by blast
  then have f: "snd (analyze_pdfs_endpoint ex_unicode ex_ingestion (lit ''id'') []
      [upload ''two.pdf'' ''broken'']) = Inl none_processed"
    by (simp add: analyze_result [OF w2] split: if_splits)
  from l1 p1 l2 p2 p3 p4 w' st s k r f show ?thesis by blast
qed

text \<open>
  Against C8 as stated: in a batch of two uploads the first document succeeds and is
  stored in the registry, the write of the second raises, and the whole operation
  fails.
\<close>

theorem ingest_fails_after_success:
  "file_outcome ex_unicode ex_ingestion (upload ''one.pdf'' ex_page) = Some (entry ''one.pdf'' 4) \<and>
   write_upload ex_ingestion (upload ''sub/x.pdf'' ''x'') = Raises \<and>
   snd (analyze_pdfs_endpoint ex_unicode ex_ingestion (lit ''id'') []
         [upload ''one.pdf'' ex_page, upload ''sub/x.pdf'' ''x'']) = Inl Uncaught \<and>
   map fst (fst (analyze_pdfs_endpoint ex_unicode ex_ingestion (lit ''id'') []
         [upload ''one.pdf'' ex_page, upload ''sub/x.pdf'' ''x''])) = [lit ''one.pdf'']"
proof -
  have w: "write_upload ex_ingestion (upload ''sub/x.pdf'' ''x'') = Raises"
    "write_upload ex_ingestion (upload ''one.pdf'' ex_page) = Returns ()"
    by (simp_all add: ex_ingestion_def upload_def ex_slashes)
  have n: "is_pdf_name ex_unicode (filename (upload ''one.pdf'' ex_page))"
    "is_pdf_name ex_unicode (filename (upload ''sub/x.pdf'' ''x''))"
    by (simp_all add: upload_def ex_names)
  obtain data where p: "process_pdf ex_unicode ex_ingestion
      (file_bytes (upload ''one.pdf'' ex_page)) (filename (upload ''one.pdf'' ex_page)) = Some data"
    using ex_outcomes(1) n(1) by (auto simp: file_outcome_def)
  have i: "ingest_files ex_unicode ex_ingestion
      [upload ''one.pdf'' ex_page, upload ''sub/x.pdf'' ''x''] [] []
      = ([(lit ''one.pdf'', data)], Raises)"
    by (simp add: n w p) (simp add: upload_def)
  have "make_temp_dir ex_ingestion = Returns ()"
    by (simp add: ex_ingestion_def)
  with i have a: "analyze_pdfs_endpoint ex_unicode ex_ingestion (lit ''id'') []
      [upload ''one.pdf'' ex_page, upload ''sub/x.pdf'' ''x'']
      = ([(lit ''one.pdf'', data)], Inl Uncaught)"
    by (simp add: analyze_pdfs_endpoint_def)
  from ex_outcomes(1) w(1) a show ?thesis
    by simp
qed

end
